theory Spec2Isabelle
  imports Main
begin

section \<open>JavaScript strings\<close>

text \<open>
  A JavaScript string is modelled as a \<^typ>\<open>string\<close>: a list of code units, restricted to
  the 8-bit range. The library functions the path utilities call (\<^verbatim>\<open>trim\<close>,
  \<^verbatim>\<open>split\<close>, \<^verbatim>\<open>join\<close>, \<^verbatim>\<open>replace\<close> with the
  regular expressions of the source, \<^verbatim>\<open>toUpperCase\<close>, \<^verbatim>\<open>toLowerCase\<close>,
  \<^verbatim>\<open>path.basename\<close>, \<^verbatim>\<open>path.extname\<close>) are modelled after
  their language and Node.js (POSIX) definitions.
\<close>

text \<open>The class \<^verbatim>\<open>\s\<close> of a regular expression, which is also what \<^verbatim>\<open>trim\<close>
  strips: tab, line feed, vertical tab, form feed, carriage return, space, no-break space.\<close>

definition is_space :: "char \<Rightarrow> bool" where
  "is_space c = (c \<in> set [CHR 0x09, CHR 0x0A, CHR 0x0B, CHR 0x0C, CHR 0x0D, CHR '' '', CHR 0xA0])"

text \<open>Line terminators: the characters the dot of a regular expression does not match.\<close>

definition is_line_terminator :: "char \<Rightarrow> bool" where
  "is_line_terminator c = (c \<in> set [CHR 0x0A, CHR 0x0D])"

text \<open>The class \<^verbatim>\<open>[<>:"|?*]\<close>.\<close>

definition is_invalid_char :: "char \<Rightarrow> bool" where
  "is_invalid_char c = (c \<in> set [CHR ''<'', CHR ''>'', CHR '':'', CHR 0x22, CHR ''|'', CHR ''?'', CHR ''*''])"

text \<open>Case mapping. Within the 8-bit range only the ASCII letters map to ASCII letters,
  and every comparison below is against ASCII text.\<close>

definition to_upper :: "char \<Rightarrow> char" where
  "to_upper c =
     (case map_of (zip ''abcdefghijklmnopqrstuvwxyz'' ''ABCDEFGHIJKLMNOPQRSTUVWXYZ'') c of
        Some u \<Rightarrow> u
      | None \<Rightarrow> c)"

definition to_lower :: "char \<Rightarrow> char" where
  "to_lower c =
     (case map_of (zip ''ABCDEFGHIJKLMNOPQRSTUVWXYZ'' ''abcdefghijklmnopqrstuvwxyz'') c of
        Some l \<Rightarrow> l
      | None \<Rightarrow> c)"

definition toUpperCase :: "string \<Rightarrow> string" where
  "toUpperCase s = map to_upper s"

definition toLowerCase :: "string \<Rightarrow> string" where
  "toLowerCase s = map to_lower s"

text \<open>\<^verbatim>\<open>s.trim()\<close>, and \<^verbatim>\<open>s.replace(/^\s+|\s+$/g, '')\<close>, which is the same function.\<close>

definition js_trim :: "string \<Rightarrow> string" where
  "js_trim s = rev (dropWhile is_space (rev (dropWhile is_space s)))"

text \<open>\<^verbatim>\<open>s.replace(/^\/+|\/+$/g, '')\<close>: the leading and the trailing run of slashes go.\<close>

definition strip_slashes :: "string \<Rightarrow> string" where
  "strip_slashes s =
     rev (dropWhile (\<lambda>c. c = CHR ''/'') (rev (dropWhile (\<lambda>c. c = CHR ''/'') s)))"

text \<open>\<^verbatim>\<open>s.split('/')\<close>: never empty; the empty string splits into one empty part.\<close>

fun split_slash :: "string \<Rightarrow> string list" where
  "split_slash [] = [[]]"
| "split_slash (c # cs) =
     (if c = CHR ''/'' then [] # split_slash cs
      else (case split_slash cs of
              [] \<Rightarrow> [[c]]
            | p # ps \<Rightarrow> (c # p) # ps))"

text \<open>\<^verbatim>\<open>parts.join('/')\<close>.\<close>

fun join_slash :: "string list \<Rightarrow> string" where
  "join_slash [] = []"
| "join_slash [p] = p"
| "join_slash (p # q # ps) = p @ CHR ''/'' # join_slash (q # ps)"

text \<open>\<^verbatim>\<open>s.replace(/\.{2,}/g, '.')\<close>: every run of two or more dots becomes one dot.\<close>

fun collapse_dots :: "string \<Rightarrow> string" where
  "collapse_dots (a # b # cs) =
     (if a = CHR ''.'' \<and> b = CHR ''.'' then collapse_dots (b # cs)
      else a # collapse_dots (b # cs))"
| "collapse_dots cs = cs"

section \<open>The path sanitizer (pathSanitizer.js)\<close>

text \<open>The chain of replacements that cleans one part of a path (\<^verbatim>\<open>cleanPart\<close>).\<close>

definition clean_part :: "string \<Rightarrow> string" where
  "clean_part part = collapse_dots (js_trim (filter (\<lambda>c. \<not> is_invalid_char c) part))"

text \<open>One round of the loop over the parts: \<^verbatim>\<open>validParts\<close> is the accumulator,
  \<^verbatim>\<open>push\<close> appends and \<^verbatim>\<open>pop\<close> drops the last element.\<close>

definition sanitize_step :: "string list \<Rightarrow> string \<Rightarrow> string list" where
  "sanitize_step validParts part =
     (if part = [] \<or> part = ''.'' then validParts
      else if part = ''..'' then
        (if length validParts > 0 then butlast validParts else validParts)
      else
        (let cleanPart = clean_part part in
         if length cleanPart > 0 then validParts @ [cleanPart] else validParts))"

definition sanitizePath :: "string \<Rightarrow> string" where
  "sanitizePath filePath =
     (if filePath = [] then []
      else
        let sanitized = filter (\<lambda>c. c \<noteq> CHR 0x00) filePath;
            sanitized = map (\<lambda>c. if c = CHR 0x5C then CHR ''/'' else c) sanitized;
            sanitized = strip_slashes (js_trim sanitized);
            parts = split_slash sanitized
        in join_slash (foldl sanitize_step [] parts))"

text \<open>A regular expression without an anchor at the start is tried at every position:
  \<^term>\<open>exists_suffix P s\<close> holds when \<^term>\<open>P\<close> holds of \<^term>\<open>s\<close> from some position on
  (the position at the very end included).\<close>

fun exists_suffix :: "(string \<Rightarrow> bool) \<Rightarrow> string \<Rightarrow> bool" where
  "exists_suffix P [] = P []"
| "exists_suffix P (c # cs) = (P (c # cs) \<or> exists_suffix P cs)"

text \<open>The group \<^verbatim>\<open>(\/|$)\<close>: a slash comes next, or the string ends here.\<close>

fun slash_or_end :: "string \<Rightarrow> bool" where
  "slash_or_end [] = True"
| "slash_or_end (c # cs) = (c = CHR ''/'')"

text \<open>\<^term>\<open>starts_ci lit s\<close>: \<^term>\<open>s\<close> starts with the literal, letters compared without
  case (the flag \<^verbatim>\<open>i\<close>); the literal is given in lower case. What follows the literal
  must satisfy \<^term>\<open>k\<close>.\<close>

definition starts_ci :: "string \<Rightarrow> (string \<Rightarrow> bool) \<Rightarrow> string \<Rightarrow> bool" where
  "starts_ci lit k s = (map to_lower (take (length lit) s) = lit \<and> k (drop (length lit) s))"

definition starts_cs :: "string \<Rightarrow> (string \<Rightarrow> bool) \<Rightarrow> string \<Rightarrow> bool" where
  "starts_cs lit k s = (take (length lit) s = lit \<and> k (drop (length lit) s))"

text \<open>The twelve entries of \<^verbatim>\<open>dangerousPatterns\<close>, in the order of the source.\<close>

definition dangerousPatterns :: "(string \<Rightarrow> bool) list" where
  "dangerousPatterns =
     [ exists_suffix (starts_ci ''.git'' slash_or_end),
       exists_suffix (starts_ci ''/.git'' slash_or_end),
       starts_ci ''.git'' slash_or_end,
       exists_suffix (starts_cs ''..'' slash_or_end),
       exists_suffix (starts_cs ''/..'' slash_or_end),
       starts_cs ''..'' slash_or_end,
       exists_suffix (starts_cs ''//'' (\<lambda>r. True)),
       starts_cs ''/'' (\<lambda>r. True),
       (\<lambda>s. s \<noteq> [] \<and> last s = CHR ''/''),
       (\<lambda>s. list_ex is_invalid_char s),
       (\<lambda>s. s \<noteq> [] \<and> (is_space (hd s) \<or> is_space (last s))),
       (\<lambda>s. list_ex (\<lambda>c. c = CHR 0x00) s) ]"

definition reservedNames :: "string list" where
  "reservedNames =
     [''CON'', ''PRN'', ''AUX'', ''NUL'',
      ''COM1'', ''COM2'', ''COM3'', ''COM4'', ''COM5'', ''COM6'', ''COM7'', ''COM8'', ''COM9'',
      ''LPT1'', ''LPT2'', ''LPT3'', ''LPT4'', ''LPT5'', ''LPT6'', ''LPT7'', ''LPT8'', ''LPT9'']"

definition blockedExtensions :: "string list" where
  "blockedExtensions =
     [''.exe'', ''.bat'', ''.cmd'', ''.sh'', ''.bin'',
      ''.dll'', ''.so'', ''.dylib'', ''.sys'',
      ''.php'', ''.php3'', ''.php4'', ''.php5'', ''.phtml'',
      ''.py'', ''.pyc'', ''.pyo'', ''.pyw'',
      ''.pl'', ''.pm'', ''.t'', ''.cgi'',
      ''.js'', ''.jse'', ''.vbs'', ''.vbe'', ''.wsf'',
      ''.jar'', ''.war'', ''.ear'', ''.class'']"

text \<open>\<^verbatim>\<open>path.basename(p)\<close> (POSIX): the last part of the path, trailing slashes aside.\<close>

definition basename :: "string \<Rightarrow> string" where
  "basename p = last (split_slash (rev (dropWhile (\<lambda>c. c = CHR ''/'') (rev p))))"

text \<open>\<^verbatim>\<open>name.replace(/\..*$/, '')\<close>: the text from the first dot that only characters
  other than line terminators follow, up to the end, goes.\<close>

fun strip_from_dot :: "string \<Rightarrow> string" where
  "strip_from_dot [] = []"
| "strip_from_dot (c # cs) =
     (if c = CHR ''.'' \<and> \<not> list_ex is_line_terminator cs then []
      else c # strip_from_dot cs)"

text \<open>\<^verbatim>\<open>path.extname(p)\<close> (POSIX): from the last dot of the base name to its end; empty
  when the base name has no dot, when its only dot is its first character, and for
  the base name \<^verbatim>\<open>..\<close>.\<close>

definition extname :: "string \<Rightarrow> string" where
  "extname p =
     (let b = basename p;
          ext = rev (takeWhile (\<lambda>c. c \<noteq> CHR ''.'') (rev b));
          startDot = length b - length ext - 1
      in if CHR ''.'' \<notin> set b \<or> startDot = 0 \<or> b = ''..'' then []
         else CHR ''.'' # ext)"

definition isValidPath :: "string \<Rightarrow> bool" where
  "isValidPath filePath =
     (if filePath = [] then False
      else if length filePath > 500 then False
      else if list_ex (\<lambda>pattern. pattern filePath) dangerousPatterns then False
      else if strip_from_dot (toUpperCase (basename filePath)) \<in> set reservedNames then False
      else if toLowerCase (extname filePath) \<in> set blockedExtensions then False
      else True)"

section \<open>The file scanner (fileScanner.js)\<close>

text \<open>A file record as the extraction service returns it.\<close>

record file_entry =
  f_path :: string
  f_size :: nat
  f_content :: string

text \<open>\<^verbatim>\<open>validateFileList\<close>; a \<^verbatim>\<open>throw new Error(message)\<close> is \<^term>\<open>Inl message\<close>
  (the message without the number in it).
  The defaults of its two bounds are \<^term>\<open>defaultMaxFiles\<close> and
  \<^term>\<open>defaultMaxTotalSize\<close>.\<close>

definition defaultMaxFiles :: nat where
  "defaultMaxFiles = 1000"

definition defaultMaxTotalSize :: nat where
  "defaultMaxTotalSize = 100 * 1024 * 1024"

definition totalSize :: "file_entry list \<Rightarrow> nat" where
  "totalSize files = foldl (\<lambda>sum file. sum + f_size file) 0 files"

definition validateFileList :: "file_entry list \<Rightarrow> nat \<Rightarrow> nat \<Rightarrow> string + bool" where
  "validateFileList files maxFiles maxTotalSize =
     (if length files > maxFiles then Inl ''Too many files''
      else if totalSize files > maxTotalSize then Inl ''Total size exceeds limit''
      else Inr True)"

section \<open>Numbers and dates\<close>

text \<open>A JavaScript number that came out of \<^verbatim>\<open>parseInt\<close>: an integer or \<^verbatim>\<open>NaN\<close>
  (rounding of large values is not modelled). Arithmetic with \<^verbatim>\<open>NaN\<close> gives
  \<^verbatim>\<open>NaN\<close>, \<^verbatim>\<open>Math.max\<close> included, and every comparison with it is false.\<close>

datatype jsnum = Num int | NaN

fun js_add :: "jsnum \<Rightarrow> jsnum \<Rightarrow> jsnum" where
  "js_add (Num a) (Num b) = Num (a + b)"
| "js_add _ _ = NaN"

fun js_sub :: "jsnum \<Rightarrow> jsnum \<Rightarrow> jsnum" where
  "js_sub (Num a) (Num b) = Num (a - b)"
| "js_sub _ _ = NaN"

fun js_mul :: "jsnum \<Rightarrow> jsnum \<Rightarrow> jsnum" where
  "js_mul (Num a) (Num b) = Num (a * b)"
| "js_mul _ _ = NaN"

fun js_max :: "jsnum \<Rightarrow> jsnum \<Rightarrow> jsnum" where
  "js_max (Num a) (Num b) = Num (max a b)"
| "js_max _ _ = NaN"

fun js_less :: "jsnum \<Rightarrow> jsnum \<Rightarrow> bool" where
  "js_less (Num a) (Num b) = (a < b)"
| "js_less _ _ = False"

text \<open>\<^verbatim>\<open>new Date(t).toISOString()\<close> throws a \<^verbatim>\<open>RangeError\<close> unless \<^verbatim>\<open>t\<close> is a
  time value: a number of at most 8.64e15 in absolute value.\<close>

fun valid_date :: "jsnum \<Rightarrow> bool" where
  "valid_date (Num t) = (\<bar>t\<bar> \<le> 8640000000000000)"
| "valid_date NaN = False"

section \<open>The upload queue (uploadQueue.js)\<close>

text \<open>
  \<^verbatim>\<open>UploadQueue\<close> wraps a \<^verbatim>\<open>PQueue\<close> of the package p-queue, built with
  \<^verbatim>\<open>{concurrency, timeout: 300000, throwOnTimeout: false}\<close>. The package is a
  dependency, not a file of the repository; its operations are modelled after its
  documented behaviour:
  \<^item> \<^verbatim>\<open>add(fn, {priority})\<close> puts the job into a queue kept in descending order of
    priority, behind every job of a priority greater than or equal to its own
    (\<open>operations with greater priority will be scheduled first\<close>), and then starts the
    job at the head of the queue if the queue is not paused and fewer than
    \<^verbatim>\<open>concurrency\<close> jobs are running;
  \<^item> when a running job settles, its slot is freed and the head of the queue is started
    under the same condition;
  \<^item> \<^verbatim>\<open>pause()\<close> sets the paused flag; \<^verbatim>\<open>start()\<close> does nothing when the queue is
    not paused, and otherwise clears the flag and starts queued jobs while slots are free;
  \<^item> \<^verbatim>\<open>clear()\<close> empties the queue of waiting jobs;
  \<^item> a running job that takes longer than \<^verbatim>\<open>timeout\<close> milliseconds is given up by
    the queue: with \<^verbatim>\<open>throwOnTimeout: false\<close> the promise that \<^verbatim>\<open>add\<close>
    returned is fulfilled with \<^verbatim>\<open>undefined\<close> and the slot is freed, while the job
    function itself is not interrupted.

  Time is not modelled: the moment a response arrives, a timeout elapses or a timer
  fires is a step of the model, taken in any order. \<^verbatim>\<open>Date.now()\<close> is an argument of
  the steps that read it; the timestamps and durations in event payloads are left out.
\<close>

record job =
  job_id :: nat
  job_sessionId :: string
  job_filePath :: string
  job_priority :: int

text \<open>The events \<^verbatim>\<open>UploadQueue\<close> emits, with the fields of their payloads.\<close>

datatype event =
    JobStart nat string string
  | JobComplete nat string string
  | JobError nat string string "int option"
  | RateLimitWarning jsnum jsnum jsnum
  | RateLimitExceeded jsnum jsnum
  | RateLimitResumed

record queue_stats =
  totalJobs :: nat
  completedJobs :: nat
  failedJobs :: nat
  rateLimitHits :: nat

text \<open>
  One \<^verbatim>\<open>UploadQueue\<close> object. \<^term>\<open>waiting\<close> is the priority queue of the
  \<^verbatim>\<open>PQueue\<close> and \<^term>\<open>running\<close> the ids of the jobs that hold one of its slots (its
  \<^verbatim>\<open>pending\<close> count is the length). \<^term>\<open>activeUploads\<close> is the map of the same name,
  kept as the list of its values. \<^term>\<open>timers\<close> are the delays of the pending
  \<^verbatim>\<open>setTimeout\<close> callbacks of \<^verbatim>\<open>handleRateLimitExceeded\<close>, and \<^term>\<open>emitted\<close>
  is the log of the calls of \<^verbatim>\<open>this.emit\<close>, oldest first.
\<close>

record upload_queue =
  concurrency :: nat
  isPaused :: bool
  waiting :: "job list"
  running :: "nat list"
  activeUploads :: "job list"
  stats :: queue_stats
  timers :: "jsnum list"
  emitted :: "event list"

text \<open>The constructor: \<^verbatim>\<open>parseInt(process.env.UPLOAD_CONCURRENCY) || 3\<close>, where the
  argument is the parsed variable (\<^term>\<open>None\<close> when it is unset or not a number).\<close>

definition new_UploadQueue :: "nat option \<Rightarrow> upload_queue" where
  "new_UploadQueue env =
     \<lparr> concurrency = (case env of None \<Rightarrow> 3 | Some n \<Rightarrow> if n = 0 then 3 else n),
       isPaused = False,
       waiting = [],
       running = [],
       activeUploads = [],
       stats = \<lparr> totalJobs = 0, completedJobs = 0, failedJobs = 0, rateLimitHits = 0 \<rparr>,
       timers = [],
       emitted = [] \<rparr>"

definition emit :: "event \<Rightarrow> upload_queue \<Rightarrow> upload_queue" where
  "emit e u = u\<lparr> emitted := emitted u @ [e] \<rparr>"

text \<open>The priority queue of p-queue: \<^verbatim>\<open>enqueue\<close> puts the job behind the
  jobs whose priority is greater than or equal to its own (the package finds the place
  by a binary search of the ordered queue; the result is the same);
  \<^verbatim>\<open>dequeue\<close> takes the head.\<close>

definition pq_enqueue :: "job \<Rightarrow> job list \<Rightarrow> job list" where
  "pq_enqueue j q =
     takeWhile (\<lambda>e. job_priority e \<ge> job_priority j) q
     @ j # dropWhile (\<lambda>e. job_priority e \<ge> job_priority j) q"

text \<open>A job starts: it takes a slot, and the job function runs up to its first
  \<^verbatim>\<open>await\<close> (the entry in \<^verbatim>\<open>activeUploads\<close>, the event \<^verbatim>\<open>jobStart\<close>).\<close>

definition start_job :: "job \<Rightarrow> upload_queue \<Rightarrow> upload_queue" where
  "start_job j u =
     emit (JobStart (job_id j) (job_sessionId j) (job_filePath j))
       (u\<lparr> running := running u @ [job_id j], activeUploads := activeUploads u @ [j] \<rparr>)"

definition tryToStartAnother :: "upload_queue \<Rightarrow> upload_queue option" where
  "tryToStartAnother u =
     (case waiting u of
        [] \<Rightarrow> None
      | j # rest \<Rightarrow>
          if \<not> isPaused u \<and> length (running u) < concurrency u
          then Some (start_job j (u\<lparr> waiting := rest \<rparr>))
          else None)"

definition try_start :: "upload_queue \<Rightarrow> upload_queue" where
  "try_start u = (case tryToStartAnother u of None \<Rightarrow> u | Some u' \<Rightarrow> u')"

text \<open>\<^verbatim>\<open>while (tryToStartAnother()) {}\<close>: every round that starts a job takes it out of
  the queue, so the length of the queue bounds the number of rounds.\<close>

fun processQueue_rounds :: "nat \<Rightarrow> upload_queue \<Rightarrow> upload_queue" where
  "processQueue_rounds 0 u = u"
| "processQueue_rounds (Suc n) u =
     (case tryToStartAnother u of
        None \<Rightarrow> u
      | Some u' \<Rightarrow> processQueue_rounds n u')"

definition processQueue :: "upload_queue \<Rightarrow> upload_queue" where
  "processQueue u = processQueue_rounds (length (waiting u)) u"

definition pause :: "upload_queue \<Rightarrow> upload_queue" where
  "pause u = u\<lparr> isPaused := True \<rparr>"

definition start :: "upload_queue \<Rightarrow> upload_queue" where
  "start u = (if \<not> isPaused u then u else processQueue (u\<lparr> isPaused := False \<rparr>))"

definition clearStats :: "upload_queue \<Rightarrow> upload_queue" where
  "clearStats u =
     u\<lparr> stats := \<lparr> totalJobs = 0, completedJobs = 0, failedJobs = 0, rateLimitHits = 0 \<rparr> \<rparr>"

definition clear :: "upload_queue \<Rightarrow> upload_queue" where
  "clear u = clearStats (u\<lparr> waiting := [], activeUploads := [] \<rparr>)"

text \<open>\<^verbatim>\<open>addUploadJob\<close>. The job id is made from the clock and a random number in the
  source; here it is an argument. \<^verbatim>\<open>fileData.priority || 0\<close> is the priority given
  to the queue.\<close>

definition addUploadJob :: "string \<Rightarrow> int option \<Rightarrow> string \<Rightarrow> nat \<Rightarrow> upload_queue \<Rightarrow> upload_queue" where
  "addUploadJob filePath priority sessionId jobId u =
     (let j = \<lparr> job_id = jobId, job_sessionId = sessionId, job_filePath = filePath,
                job_priority = (case priority of None \<Rightarrow> 0 | Some p \<Rightarrow> p) \<rparr>;
          u1 = u\<lparr> stats := (stats u)\<lparr> totalJobs := totalJobs (stats u) + 1 \<rparr> \<rparr>
      in try_start (u1\<lparr> waiting := pq_enqueue j (waiting u1) \<rparr>))"

text \<open>The quota headers of a response, each already through \<^verbatim>\<open>parseInt\<close>.\<close>

record quota_headers =
  h_remaining :: jsnum
  h_limit :: jsnum
  h_reset :: jsnum

text \<open>What the \<^verbatim>\<open>catch\<close> block reads of the error it caught: the status of the
  response (\<^term>\<open>None\<close> when there is no response), the header
  \<^verbatim>\<open>x-ratelimit-remaining\<close> as the string it is, and the header
  \<^verbatim>\<open>x-ratelimit-reset\<close> through \<^verbatim>\<open>parseInt\<close>.\<close>

record job_failure =
  e_status :: "int option"
  e_remaining :: "string option"
  e_reset :: jsnum

text \<open>\<^verbatim>\<open>checkRateLimits\<close>; \<^term>\<open>None\<close> is the \<^verbatim>\<open>RangeError\<close> of
  \<^verbatim>\<open>toISOString\<close>.\<close>

definition checkRateLimits :: "quota_headers \<Rightarrow> int \<Rightarrow> upload_queue \<Rightarrow> upload_queue option" where
  "checkRateLimits headers now u =
     (let remaining = h_remaining headers;
          limit = h_limit headers;
          resetTime = js_mul (h_reset headers) (Num 1000)
      in if js_less remaining (Num 10) then
           (if valid_date resetTime
            then Some (emit (RateLimitWarning remaining limit resetTime) u)
            else None)
         else Some u)"

text \<open>\<^verbatim>\<open>handleRateLimitExceeded\<close>; \<^term>\<open>None\<close> is the \<^verbatim>\<open>RangeError\<close> of
  \<^verbatim>\<open>toISOString\<close>, raised before anything is emitted.\<close>

definition waitTime_of :: "jsnum \<Rightarrow> int \<Rightarrow> jsnum" where
  "waitTime_of reset now =
     js_max (Num 1000) (js_add (js_sub (js_mul reset (Num 1000)) (Num now)) (Num 1000))"

definition handleRateLimitExceeded :: "jsnum \<Rightarrow> int \<Rightarrow> upload_queue \<Rightarrow> upload_queue option" where
  "handleRateLimitExceeded reset now u =
     (let resetTime = js_mul reset (Num 1000);
          waitTime = waitTime_of reset now
      in if \<not> valid_date resetTime then None
         else
           (let u1 = emit (RateLimitExceeded resetTime waitTime) u;
                u2 = pause u1
            in Some (u2\<lparr> timers := timers u2 @ [waitTime] \<rparr>)))"

text \<open>The callback of the resume timer at position \<^term>\<open>i\<close> runs.\<close>

definition timer_fires :: "nat \<Rightarrow> upload_queue \<Rightarrow> upload_queue" where
  "timer_fires i u =
     (if i < length (timers u)
      then emit RateLimitResumed (start (u\<lparr> timers := take i (timers u) @ drop (Suc i) (timers u) \<rparr>))
      else u)"

definition find_job :: "nat \<Rightarrow> job list \<Rightarrow> job option" where
  "find_job jobId js = find (\<lambda>j. job_id j = jobId) js"

definition delete_job :: "nat \<Rightarrow> job list \<Rightarrow> job list" where
  "delete_job jobId js = filter (\<lambda>j. job_id j \<noteq> jobId) js"

text \<open>The \<^verbatim>\<open>catch\<close> and \<^verbatim>\<open>finally\<close> blocks of the job function.\<close>

definition job_catch :: "job \<Rightarrow> job_failure \<Rightarrow> int \<Rightarrow> upload_queue \<Rightarrow> upload_queue" where
  "job_catch j err now u =
     (let u1 = u\<lparr> stats := (stats u)\<lparr> failedJobs := failedJobs (stats u) + 1 \<rparr> \<rparr>;
          errorData = JobError (job_id j) (job_sessionId j) (job_filePath j) (e_status err);
          u3 =
            (if e_status err = Some 403 \<and> e_remaining err = Some ''0'' then
               (let u2 = u1\<lparr> stats := (stats u1)\<lparr> rateLimitHits := rateLimitHits (stats u1) + 1 \<rparr> \<rparr>
                in case handleRateLimitExceeded (e_reset err) now u2 of
                     None \<Rightarrow> u2
                   | Some u2' \<Rightarrow> emit errorData u2')
             else emit errorData u1)
      in u3\<lparr> activeUploads := delete_job (job_id j) (activeUploads u3) \<rparr>)"

text \<open>The job function after the upload was answered with success: the rest of the
  \<^verbatim>\<open>try\<close> block, and \<^verbatim>\<open>finally\<close>. An exception of \<^verbatim>\<open>checkRateLimits\<close> is caught
  by the \<^verbatim>\<open>catch\<close> block like any other (it has no response).\<close>

definition job_try :: "job \<Rightarrow> quota_headers \<Rightarrow> int \<Rightarrow> upload_queue \<Rightarrow> upload_queue" where
  "job_try j headers now u =
     (case checkRateLimits headers now u of
        None \<Rightarrow> job_catch j \<lparr> e_status = None, e_remaining = None, e_reset = NaN \<rparr> now u
      | Some u1 \<Rightarrow>
          (let u2 = u1\<lparr> stats := (stats u1)\<lparr> completedJobs := completedJobs (stats u1) + 1 \<rparr> \<rparr>;
               u3 = emit (JobComplete (job_id j) (job_sessionId j) (job_filePath j)) u2
           in u3\<lparr> activeUploads := delete_job (job_id j) (activeUploads u3) \<rparr>))"

text \<open>The queue's side of a job that settles or times out: the slot is freed and the
  next job is tried. A job that the queue gave up earlier holds no slot any more.\<close>

definition release_slot :: "nat \<Rightarrow> upload_queue \<Rightarrow> upload_queue" where
  "release_slot jobId u =
     (if jobId \<in> set (running u)
      then try_start (u\<lparr> running := filter (\<lambda>i. i \<noteq> jobId) (running u) \<rparr>)
      else u)"

text \<open>The three ways a started job goes on: the upload succeeds, a request fails, or the
  queue's timeout elapses first (the job function then still runs to its end later).\<close>

definition job_succeeds :: "nat \<Rightarrow> quota_headers \<Rightarrow> int \<Rightarrow> upload_queue \<Rightarrow> upload_queue" where
  "job_succeeds jobId headers now u =
     (case find_job jobId (activeUploads u) of
        None \<Rightarrow> u
      | Some j \<Rightarrow> release_slot jobId (job_try j headers now u))"

definition job_fails :: "nat \<Rightarrow> job_failure \<Rightarrow> int \<Rightarrow> upload_queue \<Rightarrow> upload_queue" where
  "job_fails jobId err now u =
     (case find_job jobId (activeUploads u) of
        None \<Rightarrow> u
      | Some j \<Rightarrow> release_slot jobId (job_catch j err now u))"

definition job_times_out :: "nat \<Rightarrow> upload_queue \<Rightarrow> upload_queue" where
  "job_times_out jobId u = release_slot jobId u"

section \<open>Server-sent events (setupSSE)\<close>

text \<open>What a client's response stream was written: the \<^verbatim>\<open>connected\<close> message, and
  events that a handler forwarded. The keep-alive comments are left out.\<close>

datatype sse_message = Connected string | Forwarded event

text \<open>The six entries of \<^verbatim>\<open>eventHandlers\<close>, for the client that asked for
  \<^term>\<open>sessionId\<close>: what the handler of the event writes.\<close>

fun eventHandlers :: "string \<Rightarrow> event \<Rightarrow> sse_message list" where
  "eventHandlers sessionId (JobStart jobId sid filePath) =
     (if sid = sessionId then [Forwarded (JobStart jobId sid filePath)] else [])"
| "eventHandlers sessionId (JobComplete jobId sid filePath) =
     (if sid = sessionId then [Forwarded (JobComplete jobId sid filePath)] else [])"
| "eventHandlers sessionId (JobError jobId sid filePath st) =
     (if sid = sessionId then [Forwarded (JobError jobId sid filePath st)] else [])"
| "eventHandlers sessionId (RateLimitWarning remaining limit resetTime) =
     [Forwarded (RateLimitWarning remaining limit resetTime)]"
| "eventHandlers sessionId (RateLimitExceeded resetTime waitTime) =
     [Forwarded (RateLimitExceeded resetTime waitTime)]"
| "eventHandlers sessionId RateLimitResumed = [Forwarded RateLimitResumed]"

text \<open>
  A connected client. \<^verbatim>\<open>setupSSE\<close> registers the handlers on
  \<^verbatim>\<open>const uploadQueue = new UploadQueue()\<close>, an object of its own made in the call,
  not on the object the module exports and the routes add jobs to: \<^term>\<open>c_queue\<close> is
  that object. The handlers are registered as soon as it exists, so the client's stream
  holds the forwarded events of its log.
\<close>

record sse_client =
  c_sessionId :: string
  c_queue :: upload_queue

definition written :: "sse_client \<Rightarrow> sse_message list" where
  "written c =
     Connected (c_sessionId c) # concat (map (eventHandlers (c_sessionId c)) (emitted (c_queue c)))"

section \<open>The upload routes (upload.js)\<close>

datatype status = Pending | Uploading | Completed | Cancelled

record session_stats =
  st_total :: nat
  st_completed :: nat
  st_failed :: nat

text \<open>A session as \<^verbatim>\<open>/start\<close> stores it (the fields of \<^verbatim>\<open>config\<close> that a route
  reads, the files, the status and the stats). The temporary directory and its cleanup
  belong to the extraction service and are left out; the cleanup is taken to succeed.\<close>

record session =
  s_files :: "file_entry list"
  s_owner :: string
  s_repo :: string
  s_branch :: string
  s_installationId :: nat
  s_status :: status
  s_stats :: session_stats

text \<open>The variables of \<^verbatim>\<open>process.env\<close> that the code reads: the two numbers
  through \<^verbatim>\<open>parseInt\<close> (\<^term>\<open>None\<close> when the variable is unset or not a number).\<close>

record environment =
  UPLOAD_CONCURRENCY :: "nat option"
  MAX_UPLOAD_SIZE :: "nat option"
  NODE_ENV :: "string option"

text \<open>
  The state of the server process: the exported \<^verbatim>\<open>UploadQueue\<close>, the map
  \<^verbatim>\<open>app.locals.sessions\<close>, the connected clients, and for every
  \<^verbatim>\<open>Promise.allSettled(uploadPromises)\<close> that is still waiting, the session and the
  jobs whose promise has not settled yet.
\<close>

record system =
  uploadQueue :: upload_queue
  sessions :: "string \<Rightarrow> session option"
  watchers :: "(string \<times> nat list) list"
  next_jobId :: nat
  clients :: "sse_client list"
  process_env :: environment

definition init :: "environment \<Rightarrow> system" where
  "init env =
     \<lparr> uploadQueue = new_UploadQueue (UPLOAD_CONCURRENCY env),
       sessions = (\<lambda>sid. None),
       watchers = [],
       next_jobId = 0,
       clients = [],
       process_env = env \<rparr>"

text \<open>An exception of an external collaborator (the token provider, the extraction
  service): its \<^verbatim>\<open>status\<close> and \<^verbatim>\<open>message\<close>, where it has them.\<close>

record thrown =
  t_status :: "nat option"
  t_message :: "string option"

text \<open>The file of a multipart upload as multer describes it: its name, its type and
  the number of its bytes.\<close>

record upload_file =
  originalname :: string
  mimetype :: string
  upload_size :: nat

text \<open>The request of \<^verbatim>\<open>/start\<close>: the installation of the session, the fields of
  the body, and the uploaded file.\<close>

record start_request =
  r_installationId :: "nat option"
  r_owner :: "string option"
  r_repo :: "string option"
  r_branch :: "string option"
  r_file :: "upload_file option"

text \<open>A response: an error status with its message, or the success body.\<close>

datatype response =
    Status nat string
  | StartOk string nat nat
  | Ok

text \<open>\<^verbatim>\<open>!x\<close> for an optional string, and \<^verbatim>\<open>x || d\<close>.\<close>

fun falsy :: "string option \<Rightarrow> bool" where
  "falsy None = True"
| "falsy (Some s) = (s = [])"

definition or_default :: "string option \<Rightarrow> string \<Rightarrow> string" where
  "or_default x d = (if falsy x then d else the x)"

definition endsWith :: "string \<Rightarrow> string \<Rightarrow> bool" where
  "endsWith s suffix = (length suffix \<le> length s \<and> drop (length s - length suffix) s = suffix)"

definition includes_str :: "string \<Rightarrow> string \<Rightarrow> bool" where
  "includes_str s sub = exists_suffix (starts_cs sub (\<lambda>r. True)) s"

text \<open>The \<^verbatim>\<open>catch\<close> block of \<^verbatim>\<open>/start\<close>.\<close>

definition start_error :: "thrown \<Rightarrow> response" where
  "start_error err =
     Status (case t_status err of None \<Rightarrow> 500 | Some n \<Rightarrow> if n = 0 then 500 else n)
            (or_default (t_message err) ''Failed to process upload'')"

text \<open>The middleware \<^verbatim>\<open>requireInstallation\<close>: the installation id, or the response 401.\<close>

definition requireInstallation :: "nat option \<Rightarrow> response + nat" where
  "requireInstallation installationId =
     (case installationId of
        None \<Rightarrow> Inl (Status 401 ''GitHub App not installed. Please install the app first.'')
      | Some i \<Rightarrow>
          if i = 0 then Inl (Status 401 ''GitHub App not installed. Please install the app first.'')
          else Inr i)"

text \<open>
  The upload middleware \<^verbatim>\<open>upload.single('file')\<close> of the package multer, as the
  route configures it. The package is a dependency; what it does is modelled after its
  documented behaviour: a request without a file goes on to the handler with
  \<^verbatim>\<open>req.file\<close> undefined; a file that \<^verbatim>\<open>fileFilter\<close> refuses, or that is larger
  than \<^verbatim>\<open>limits.fileSize\<close>, ends the request with an error that is passed on to the
  error handler of the application (\<^term>\<open>Inl\<close> of its message), and the handler of
  the route does not run.
\<close>

definition allowedMimeTypes :: "string list" where
  "allowedMimeTypes = [''application/zip'', ''application/x-zip-compressed'', ''multipart/x-zip'']"

definition fileFilter :: "upload_file \<Rightarrow> bool" where
  "fileFilter file =
     (if mimetype file = ''application/octet-stream'' \<and> endsWith (originalname file) ''.zip''
      then True
      else mimetype file \<in> set allowedMimeTypes)"

text \<open>\<^verbatim>\<open>parseInt(process.env.MAX_UPLOAD_SIZE) || 100 * 1024 * 1024\<close>.\<close>

definition fileSize_limit :: "environment \<Rightarrow> nat" where
  "fileSize_limit env =
     (case MAX_UPLOAD_SIZE env of
        None \<Rightarrow> 100 * 1024 * 1024
      | Some n \<Rightarrow> if n = 0 then 100 * 1024 * 1024 else n)"

definition upload_single :: "environment \<Rightarrow> upload_file option \<Rightarrow> string + upload_file option" where
  "upload_single env file =
     (case file of
        None \<Rightarrow> Inr None
      | Some f \<Rightarrow>
          if \<not> fileFilter f then Inl ''Invalid file type. Only ZIP files are allowed.''
          else if upload_size f > fileSize_limit env then Inl ''File too large''
          else Inr (Some f))"

text \<open>The error handler of the application (server.js), for an error that has no
  \<^verbatim>\<open>status\<close> of its own, as those of the upload middleware.\<close>

definition error_handler :: "environment \<Rightarrow> string \<Rightarrow> response" where
  "error_handler env message =
     Status 500 (if NODE_ENV env = Some ''development'' then message else ''Internal server error'')"

text \<open>
  \<^verbatim>\<open>POST /start\<close>: the chain \<^verbatim>\<open>requireInstallation\<close>,
  \<^verbatim>\<open>upload.single('file')\<close>, and the handler of the route. The result of
  \<^verbatim>\<open>GitHubAuth.getInstallationToken\<close>, the result of \<^verbatim>\<open>extractZip\<close> and the
  value of \<^verbatim>\<open>uuidv4()\<close> are arguments.
\<close>

definition post_start ::
  "start_request \<Rightarrow> thrown + string \<Rightarrow> thrown + file_entry list \<Rightarrow> string \<Rightarrow> system
     \<Rightarrow> response \<times> system" where
  "post_start req token extracted sessionId sys =
     (case requireInstallation (r_installationId req) of
        Inl r \<Rightarrow> (r, sys)
      | Inr installationId \<Rightarrow>
        (case upload_single (process_env sys) (r_file req) of
           Inl message \<Rightarrow> (error_handler (process_env sys) message, sys)
         | Inr req_file \<Rightarrow>
          if falsy (r_owner req) \<or> falsy (r_repo req)
          then (Status 400 ''Owner and repository name are required'', sys)
          else
            (case req_file of
               None \<Rightarrow> (Status 400 ''No file provided'', sys)
             | Some file \<Rightarrow>
                 (case token of
                    Inl err \<Rightarrow> (start_error err, sys)
                  | Inr installationToken \<Rightarrow>
                      if endsWith (originalname file) ''.zip'' \<or> includes_str (mimetype file) ''zip''
                      then
                        (case extracted of
                           Inl err \<Rightarrow> (start_error err, sys)
                         | Inr files \<Rightarrow>
                             (let validFiles = filter (\<lambda>file. isValidPath (f_path file)) files
                              in if length validFiles = 0
                                 then (Status 400 ''No valid files found in upload'', sys)
                                 else
                                   (StartOk sessionId (length validFiles) (totalSize validFiles),
                                    sys\<lparr> sessions := (sessions sys)(sessionId \<mapsto>
                                      \<lparr> s_files = validFiles,
                                        s_owner = the (r_owner req),
                                        s_repo = the (r_repo req),
                                        s_branch = or_default (r_branch req) ''main'',
                                        s_installationId = installationId,
                                        s_status = Pending,
                                        s_stats = \<lparr> st_total = length validFiles,
                                                    st_completed = 0,
                                                    st_failed = 0 \<rparr> \<rparr>) \<rparr>)))
                      else (Status 400 ''Only ZIP files are accepted for folder uploads.'', sys)))))"

text \<open>\<^verbatim>\<open>session.files.map((file, index) => uploadQueue.addUploadJob(...))\<close>: the file
  at \<^term>\<open>index\<close> is added with \<^verbatim>\<open>priority: index\<close>; job ids are handed out in
  sequence.\<close>

fun add_files :: "string \<Rightarrow> file_entry list \<Rightarrow> nat \<Rightarrow> nat \<Rightarrow> upload_queue \<Rightarrow> upload_queue" where
  "add_files sessionId [] index jobId u = u"
| "add_files sessionId (file # files) index jobId u =
     add_files sessionId files (index + 1) (jobId + 1)
       (addUploadJob (f_path file) (Some (int index)) sessionId jobId u)"

text \<open>The callback of \<^verbatim>\<open>Promise.allSettled(uploadPromises).then\<close>.\<close>

definition mark_completed :: "(string \<Rightarrow> session option) \<Rightarrow> string \<Rightarrow> (string \<Rightarrow> session option)" where
  "mark_completed m sessionId =
     (case m sessionId of
        None \<Rightarrow> m
      | Some s \<Rightarrow> m(sessionId \<mapsto> s\<lparr> s_status := Completed \<rparr>))"

text \<open>The waiting \<^verbatim>\<open>allSettled\<close> promises that have nothing left to wait for run their
  callbacks.\<close>

definition fire_watchers :: "system \<Rightarrow> system" where
  "fire_watchers sys =
     sys\<lparr> sessions := foldl mark_completed (sessions sys)
             (map fst (filter (\<lambda>w. snd w = []) (watchers sys))),
          watchers := filter (\<lambda>w. snd w \<noteq> []) (watchers sys) \<rparr>"

text \<open>The promise that \<^verbatim>\<open>addUploadJob\<close> returned for a job settles.\<close>

definition settle_promise :: "nat \<Rightarrow> system \<Rightarrow> system" where
  "settle_promise jobId sys =
     fire_watchers
       (sys\<lparr> watchers := map (\<lambda>w. (fst w, filter (\<lambda>i. i \<noteq> jobId) (snd w))) (watchers sys) \<rparr>)"

text \<open>\<^verbatim>\<open>POST /execute/:sessionId\<close>.\<close>

definition post_execute :: "nat option \<Rightarrow> string \<Rightarrow> system \<Rightarrow> response \<times> system" where
  "post_execute installation sessionId sys =
     (case requireInstallation installation of
        Inl r \<Rightarrow> (r, sys)
      | Inr installationId \<Rightarrow>
          (case sessions sys sessionId of
             None \<Rightarrow> (Status 404 ''Upload session not found'', sys)
           | Some session \<Rightarrow>
               if s_installationId session \<noteq> installationId
               then (Status 403 ''Access denied to this upload session'', sys)
               else
                 (let n = length (s_files session);
                      first = next_jobId sys
                  in (Ok,
                      fire_watchers
                        (sys\<lparr> sessions := (sessions sys)(sessionId \<mapsto> session\<lparr> s_status := Uploading \<rparr>),
                              uploadQueue := add_files sessionId (s_files session) 0 first (uploadQueue sys),
                              watchers := watchers sys @ [(sessionId, [first ..< first + n])],
                              next_jobId := first + n \<rparr>)))))"

text \<open>\<^verbatim>\<open>POST /cancel/:sessionId\<close>.\<close>

definition post_cancel :: "nat option \<Rightarrow> string \<Rightarrow> system \<Rightarrow> response \<times> system" where
  "post_cancel installation sessionId sys =
     (case requireInstallation installation of
        Inl r \<Rightarrow> (r, sys)
      | Inr installationId \<Rightarrow>
          (case sessions sys sessionId of
             None \<Rightarrow> (Status 404 ''Upload session not found'', sys)
           | Some session \<Rightarrow>
               if s_installationId session \<noteq> installationId
               then (Status 403 ''Access denied'', sys)
               else (Ok, sys\<lparr> sessions := (sessions sys)(sessionId \<mapsto> session\<lparr> s_status := Cancelled \<rparr>) \<rparr>)))"

text \<open>\<^verbatim>\<open>GET /api/upload-progress/:sessionId\<close>, and the client going away.\<close>

definition setupSSE :: "string \<Rightarrow> system \<Rightarrow> system" where
  "setupSSE sessionId sys =
     sys\<lparr> clients := clients sys @
            [\<lparr> c_sessionId = sessionId, c_queue = new_UploadQueue (UPLOAD_CONCURRENCY (process_env sys)) \<rparr>] \<rparr>"

definition disconnect :: "nat \<Rightarrow> system \<Rightarrow> system" where
  "disconnect i sys = sys\<lparr> clients := take i (clients sys) @ drop (Suc i) (clients sys) \<rparr>"

text \<open>What can happen to the process, and the state after it. A job's promise settles
  when the job function ends while the job still holds its slot, or when the queue's
  timeout gives the job up.\<close>

datatype action =
    Start start_request "thrown + string" "thrown + file_entry list" string
  | Execute "nat option" string
  | Cancel "nat option" string
  | JobSucceeds nat quota_headers int
  | JobFails nat job_failure int
  | JobTimesOut nat
  | TimerFires nat
  | Subscribe string
  | Disconnect nat

definition holds_slot :: "nat \<Rightarrow> upload_queue \<Rightarrow> bool" where
  "holds_slot jobId u = (jobId \<in> set (running u))"

definition is_active :: "nat \<Rightarrow> upload_queue \<Rightarrow> bool" where
  "is_active jobId u = (find_job jobId (activeUploads u) \<noteq> None)"

fun step :: "action \<Rightarrow> system \<Rightarrow> system" where
  "step (Start req token extracted sessionId) sys = snd (post_start req token extracted sessionId sys)"
| "step (Execute installation sessionId) sys = snd (post_execute installation sessionId sys)"
| "step (Cancel installation sessionId) sys = snd (post_cancel installation sessionId sys)"
| "step (JobSucceeds jobId headers now) sys =
     (let u = uploadQueue sys;
          sys1 = sys\<lparr> uploadQueue := job_succeeds jobId headers now u \<rparr>
      in if is_active jobId u \<and> holds_slot jobId u then settle_promise jobId sys1 else sys1)"
| "step (JobFails jobId err now) sys =
     (let u = uploadQueue sys;
          sys1 = sys\<lparr> uploadQueue := job_fails jobId err now u \<rparr>
      in if is_active jobId u \<and> holds_slot jobId u then settle_promise jobId sys1 else sys1)"
| "step (JobTimesOut jobId) sys =
     (let u = uploadQueue sys;
          sys1 = sys\<lparr> uploadQueue := job_times_out jobId u \<rparr>
      in if holds_slot jobId u then settle_promise jobId sys1 else sys1)"
| "step (TimerFires i) sys = sys\<lparr> uploadQueue := timer_fires i (uploadQueue sys) \<rparr>"
| "step (Subscribe sessionId) sys = setupSSE sessionId sys"
| "step (Disconnect i) sys = disconnect i sys"

definition run :: "action list \<Rightarrow> system \<Rightarrow> system" where
  "run acts sys = foldl (\<lambda>s a. step a s) sys acts"

section \<open>Auxiliary notions for the proofs\<close>

text \<open>What every part that \<^term>\<open>sanitize_step\<close> pushes looks like: not empty, free of
  separators, null bytes and the characters of \<^term>\<open>is_invalid_char\<close>, no white space
  at either end, and no two dots in a row.\<close>

definition good_part :: "string \<Rightarrow> bool" where
  "good_part p =
     (p \<noteq> [] \<and> CHR ''/'' \<notin> set p \<and> CHR 0x5C \<notin> set p \<and> CHR 0x00 \<notin> set p
      \<and> \<not> list_ex is_invalid_char p
      \<and> \<not> is_space (hd p) \<and> \<not> is_space (last p) \<and> collapse_dots p = p)"

text \<open>Kinds of events.\<close>

fun is_exceeded :: "event \<Rightarrow> bool" where
  "is_exceeded (RateLimitExceeded resetTime waitTime) = True"
| "is_exceeded e = False"

fun is_resumed :: "event \<Rightarrow> bool" where
  "is_resumed RateLimitResumed = True"
| "is_resumed e = False"

fun is_job_error :: "event \<Rightarrow> bool" where
  "is_job_error (JobError jobId sid filePath st) = True"
| "is_job_error e = False"

fun is_job_start :: "event \<Rightarrow> bool" where
  "is_job_start (JobStart jobId sid filePath) = True"
| "is_job_start e = False"

section \<open>Example states\<close>

text \<open>Concrete requests, responses and states, used where a property is shown at an
  explicit input.\<close>

definition quota_error :: job_failure where
  "quota_error = \<lparr> e_status = Some 403, e_remaining = Some ''0'', e_reset = Num 1700000000 \<rparr>"

definition one_active :: upload_queue where
  "one_active = addUploadJob ''a.txt'' (Some 0) ''s1'' 0 (new_UploadQueue None)"

definition two_active :: upload_queue where
  "two_active = addUploadJob ''b.txt'' (Some 1) ''s2'' 1 one_active"

definition first_hit :: upload_queue where
  "first_hit = job_fails 0 quota_error 1699999990000 two_active"

definition default_env :: environment where
  "default_env = \<lparr> UPLOAD_CONCURRENCY = None, MAX_UPLOAD_SIZE = None, NODE_ENV = None \<rparr>"

definition two_slots_env :: environment where
  "two_slots_env = \<lparr> UPLOAD_CONCURRENCY = Some 2, MAX_UPLOAD_SIZE = None, NODE_ENV = None \<rparr>"

definition zip_upload :: upload_file where
  "zip_upload = \<lparr> originalname = ''site.zip'', mimetype = ''application/zip'',
                   upload_size = 1048576 \<rparr>"

definition start_req :: start_request where
  "start_req = \<lparr> r_installationId = Some 7, r_owner = Some ''octo'', r_repo = Some ''site'',
                  r_branch = None, r_file = Some zip_upload \<rparr>"

definition text_file :: "string \<Rightarrow> file_entry" where
  "text_file p = \<lparr> f_path = p, f_size = 1, f_content = [] \<rparr>"

definition ok_headers :: quota_headers where
  "ok_headers = \<lparr> h_remaining = Num 4000, h_limit = Num 5000, h_reset = Num 1700000000 \<rparr>"

definition one_file_started :: system where
  "one_file_started =
     run [Start start_req (Inr ''token'') (Inr [text_file ''a.txt'']) ''s1'',
          Execute (Some 7) ''s1''] (init default_env)"

text \<open>A queue of one slot: the first job runs, the second waits.\<close>

definition saturated :: upload_queue where
  "saturated =
     addUploadJob ''b.txt'' (Some 0) ''s1'' 1
       (addUploadJob ''a.txt'' (Some 0) ''s1'' 0 (new_UploadQueue (Some 1)))"

text \<open>Jobs handed to \<^term>\<open>addUploadJob\<close> one after the other.\<close>

definition submit_all :: "job list \<Rightarrow> upload_queue \<Rightarrow> upload_queue" where
  "submit_all js u =
     foldl (\<lambda>u j. addUploadJob (job_filePath j) (Some (job_priority j)) (job_sessionId j) (job_id j) u)
       u js"

text \<open>A queue of one slot that is taken; three jobs of priorities 2, 0 and 1 are
  submitted in this order and wait.\<close>

definition contending :: upload_queue where
  "contending =
     submit_all
       [\<lparr> job_id = 0, job_sessionId = ''s1'', job_filePath = ''p2.txt'', job_priority = 2 \<rparr>,
        \<lparr> job_id = 1, job_sessionId = ''s1'', job_filePath = ''p0.txt'', job_priority = 0 \<rparr>,
        \<lparr> job_id = 2, job_sessionId = ''s1'', job_filePath = ''p1.txt'', job_priority = 1 \<rparr>]
       (addUploadJob ''x.txt'' None ''s0'' 9 (new_UploadQueue (Some 1)))"

text \<open>The actions that are the outcome of a job.\<close>

fun is_outcome :: "action \<Rightarrow> bool" where
  "is_outcome (JobSucceeds jobId headers now) = True"
| "is_outcome (JobFails jobId err now) = True"
| "is_outcome (JobTimesOut jobId) = True"
| "is_outcome a = False"

text \<open>The counters of a batch as \<^verbatim>\<open>/start\<close> sets them.\<close>

definition counters_untouched :: "session \<Rightarrow> bool" where
  "counters_untouched s =
     (st_completed (s_stats s) = 0 \<and> st_failed (s_stats s) = 0
      \<and> st_total (s_stats s) = length (s_files s) \<and> 0 < st_total (s_stats s))"



definition big_file :: file_entry where
  "big_file = \<lparr> f_path = ''big.txt'', f_size = 104857601, f_content = [] \<rparr>"

definition subscribed_hit :: system where
  "subscribed_hit =
     run [Subscribe ''s1'',
          Start start_req (Inr ''token'') (Inr [text_file ''a.txt'']) ''s1'',
          Execute (Some 7) ''s1'',
          JobFails 0 quota_error 1699999990000] (init default_env)"

text \<open>The event \<^verbatim>\<open>jobStart\<close> of a job, and the number of waiting jobs that the free
  slots of a queue can take.\<close>

definition jobStart_of :: "job \<Rightarrow> event" where
  "jobStart_of j = JobStart (job_id j) (job_sessionId j) (job_filePath j)"

definition dispatchable :: "upload_queue \<Rightarrow> nat" where
  "dispatchable u = min (length (waiting u)) (concurrency u - length (running u))"

text \<open>A failure on an exhausted quota whose response has no header
  \<^verbatim>\<open>x-ratelimit-reset\<close>; an upload that is not a ZIP file.\<close>

definition no_reset_error :: job_failure where
  "no_reset_error = \<lparr> e_status = Some 403, e_remaining = Some ''0'', e_reset = NaN \<rparr>"

definition text_upload :: upload_file where
  "text_upload = \<lparr> originalname = ''notes.txt'', mimetype = ''text/plain'', upload_size = 12 \<rparr>"




chapter \<open>Properties\<close>

section \<open>The path sanitizer\<close>

subsection \<open>Stripping both ends\<close>

lemma strip_both_id:
  assumes "s \<noteq> []" "\<not> P (hd s)" "\<not> P (last s)"
  shows "rev (dropWhile P (rev (dropWhile P s))) = s"
proof -
  from assms have "dropWhile P s = s" by (cases s) auto
  moreover from assms have "dropWhile P (rev s) = rev s"
    by (cases "rev s") (auto simp: last_rev hd_rev)
  ultimately show ?thesis by simp
qed

lemma strip_both_set: "set (rev (dropWhile P (rev (dropWhile P s)))) \<subseteq> set s"
  by (auto dest!: set_dropWhileD)

lemma strip_both_ends:
  assumes "rev (dropWhile P (rev (dropWhile P s))) \<noteq> []"
  shows "\<not> P (hd (rev (dropWhile P (rev (dropWhile P s)))))
       \<and> \<not> P (last (rev (dropWhile P (rev (dropWhile P s)))))"
proof -
  define d where "d = dropWhile P s"
  define t where "t = rev (dropWhile P (rev d))"
  have tne: "t \<noteq> []" using assms by (simp add: t_def d_def)
  have "rev d = takeWhile P (rev d) @ dropWhile P (rev d)" by simp
  then have "d = t @ rev (takeWhile P (rev d))"
    unfolding t_def by (metis rev_append rev_rev_ident)
  with tne have "hd t = hd d" by (metis hd_append2)
  moreover have "d \<noteq> []" using tne t_def by auto
  then have "\<not> P (hd d)" unfolding d_def by (simp add: hd_dropWhile)
  moreover have "last t = hd (dropWhile P (rev d))"
    unfolding t_def using tne t_def by (simp add: last_rev)
  moreover have "\<not> P (hd (dropWhile P (rev d)))"
    using tne t_def by (simp add: hd_dropWhile)
  ultimately show ?thesis by (simp add: t_def d_def)
qed

subsection \<open>split and join\<close>

lemma split_slash_nonempty: "split_slash s \<noteq> []"
  by (induction s) (auto split: list.splits)

lemma split_slash_no_slash: "CHR ''/'' \<notin> set s \<Longrightarrow> split_slash s = [s]"
  by (induction s) auto

lemma split_slash_append:
  "CHR ''/'' \<notin> set p \<Longrightarrow> split_slash (p @ CHR ''/'' # r) = p # split_slash r"
  by (induction p) auto

lemma split_slash_parts:
  "p \<in> set (split_slash s) \<Longrightarrow> set p \<subseteq> set s \<and> CHR ''/'' \<notin> set p"
proof (induction s arbitrary: p)
  case Nil
  then show ?case by simp
next
  case (Cons c cs)
  show ?case
  proof (cases "c = CHR ''/''")
    case True
    with Cons show ?thesis by auto
  next
    case False
    obtain q qs where sp: "split_slash cs = q # qs"
      using split_slash_nonempty by (cases "split_slash cs") auto
    with False Cons.prems have "p = c # q \<or> p \<in> set qs" by auto
    then show ?thesis
    proof
      assume "p = c # q"
      moreover have "set q \<subseteq> set cs \<and> CHR ''/'' \<notin> set q"
        using Cons.IH [of q] sp by simp
      ultimately show ?thesis using False by auto
    next
      assume "p \<in> set qs"
      then have "set p \<subseteq> set cs \<and> CHR ''/'' \<notin> set p"
        using Cons.IH [of p] sp by simp
      then show ?thesis by auto
    qed
  qed
qed

lemma split_join:
  "ps \<noteq> [] \<Longrightarrow> \<forall>p\<in>set ps. CHR ''/'' \<notin> set p \<Longrightarrow> split_slash (join_slash ps) = ps"
proof (induction ps rule: join_slash.induct)
  case 1
  then show ?case by simp
next
  case (2 p)
  then show ?case by (simp add: split_slash_no_slash)
next
  case (3 p q ps)
  then show ?case by (simp add: split_slash_append)
qed

lemma join_slash_hd: "ps \<noteq> [] \<Longrightarrow> hd ps \<noteq> [] \<Longrightarrow> join_slash ps \<noteq> [] \<and> hd (join_slash ps) = hd (hd ps)"
  by (induction ps rule: join_slash.induct) auto

lemma join_slash_last_nonempty: "ps \<noteq> [] \<Longrightarrow> last ps \<noteq> [] \<Longrightarrow> join_slash ps \<noteq> []"
  by (induction ps rule: join_slash.induct) auto

lemma join_slash_last:
  "ps \<noteq> [] \<Longrightarrow> last ps \<noteq> [] \<Longrightarrow> last (join_slash ps) = last (last ps)"
  by (induction ps rule: join_slash.induct) (auto simp: join_slash_last_nonempty)

lemma join_slash_set: "set (join_slash ps) \<subseteq> insert (CHR ''/'') (\<Union>p\<in>set ps. set p)"
  by (induction ps rule: join_slash.induct) auto

subsection \<open>collapse_dots\<close>

lemma collapse_dots_set: "set (collapse_dots s) \<subseteq> set s"
  by (induction s rule: collapse_dots.induct) auto

lemma collapse_dots_Nil: "collapse_dots s = [] \<longleftrightarrow> s = []"
  by (induction s rule: collapse_dots.induct) auto

lemma collapse_dots_hd: "s \<noteq> [] \<Longrightarrow> hd (collapse_dots s) = hd s"
  by (induction s rule: collapse_dots.induct) auto

lemma collapse_dots_last: "s \<noteq> [] \<Longrightarrow> last (collapse_dots s) = last s"
  by (induction s rule: collapse_dots.induct) (auto simp: collapse_dots_Nil)

lemma collapse_dots_idem: "collapse_dots (collapse_dots s) = collapse_dots s"
proof (induction s rule: collapse_dots.induct)
  case (1 a b cs)
  show ?case
  proof (cases "a = CHR ''.'' \<and> b = CHR ''.''")
    case True
    with 1 show ?thesis by simp
  next
    case False
    obtain t where t: "collapse_dots (b # cs) = b # t"
      using collapse_dots_hd [of "b # cs"] collapse_dots_Nil [of "b # cs"]
      by (cases "collapse_dots (b # cs)") auto
    from False have "collapse_dots (a # b # cs) = a # b # t" using t by auto
    moreover from False have "collapse_dots (a # b # t) = a # collapse_dots (b # t)" by auto
    moreover have "collapse_dots (b # t) = b # t" using 1(2) [OF False] t by simp
    ultimately show ?thesis by simp
  qed
qed simp_all


subsection \<open>clean parts\<close>

lemma clean_part_good:
  assumes "CHR ''/'' \<notin> set part" "CHR 0x5C \<notin> set part" "CHR 0x00 \<notin> set part"
      and "clean_part part \<noteq> []"
  shows "good_part (clean_part part)"
proof -
  define f where "f = filter (\<lambda>c. \<not> is_invalid_char c) part"
  define t where "t = js_trim f"
  have c: "clean_part part = collapse_dots t" by (simp add: clean_part_def t_def f_def)
  have tne: "t \<noteq> []" using assms(4) c collapse_dots_Nil by auto
  have sub: "set (collapse_dots t) \<subseteq> set f"
    using collapse_dots_set [of t] strip_both_set [of is_space f]
    by (auto simp: t_def js_trim_def)
  have ends: "\<not> is_space (hd t) \<and> \<not> is_space (last t)"
    using strip_both_ends [of is_space f] tne by (simp add: t_def js_trim_def)
  have "set f \<subseteq> set part" "\<forall>c\<in>set f. \<not> is_invalid_char c" by (auto simp: f_def)
  with sub assms(1-3) have
    "CHR ''/'' \<notin> set (collapse_dots t)" "CHR 0x5C \<notin> set (collapse_dots t)"
    "CHR 0x00 \<notin> set (collapse_dots t)" "\<not> list_ex is_invalid_char (collapse_dots t)"
    by (auto simp: list_ex_iff)
  then show ?thesis
    using ends tne assms(4) c
    by (simp add: good_part_def collapse_dots_hd collapse_dots_last collapse_dots_idem)
qed

lemma clean_part_of_good: "good_part p \<Longrightarrow> clean_part p = p"
proof -
  assume g: "good_part p"
  then have "filter (\<lambda>c. \<not> is_invalid_char c) p = p"
    by (auto simp: good_part_def list_ex_iff filter_id_conv)
  moreover from g have "js_trim p = p"
    unfolding js_trim_def by (intro strip_both_id) (auto simp: good_part_def)
  ultimately show ?thesis using g by (simp add: clean_part_def good_part_def)
qed

lemma sanitize_step_good:
  assumes "list_all good_part acc"
      and "CHR ''/'' \<notin> set part" "CHR 0x5C \<notin> set part" "CHR 0x00 \<notin> set part"
  shows "list_all good_part (sanitize_step acc part)"
proof -
  have "list_all good_part (butlast acc)"
    using assms(1) by (auto simp: list_all_iff dest: in_set_butlastD)
  then show ?thesis
    using assms clean_part_good [OF assms(2-4)]
    by (auto simp: sanitize_step_def Let_def)
qed

lemma foldl_sanitize_good:
  assumes "list_all good_part acc"
      and "\<forall>part\<in>set parts. CHR ''/'' \<notin> set part \<and> CHR 0x5C \<notin> set part \<and> CHR 0x00 \<notin> set part"
  shows "list_all good_part (foldl sanitize_step acc parts)"
  using assms
proof (induction parts arbitrary: acc)
  case Nil
  then show ?case by simp
next
  case (Cons a parts)
  then show ?case using sanitize_step_good [of acc a] by simp
qed

lemma sanitizePath_parts:
  "\<exists>ps. list_all good_part ps \<and> sanitizePath s = join_slash ps"
proof (cases "s = []")
  case True
  then have "list_all good_part [] \<and> sanitizePath s = join_slash []"
    by (simp add: sanitizePath_def)
  then show ?thesis by blast
next
  case False
  define t where "t = strip_slashes (js_trim (map (\<lambda>c. if c = CHR 0x5C then CHR ''/'' else c)
                        (filter (\<lambda>c. c \<noteq> CHR 0x00) s)))"
  have "set t \<subseteq> set (map (\<lambda>c. if c = CHR 0x5C then CHR ''/'' else c) (filter (\<lambda>c. c \<noteq> CHR 0x00) s))"
    unfolding t_def strip_slashes_def js_trim_def
    using strip_both_set by (meson order_trans)
  then have t: "CHR 0x5C \<notin> set t \<and> CHR 0x00 \<notin> set t" by auto
  have "\<forall>part\<in>set (split_slash t). CHR ''/'' \<notin> set part \<and> CHR 0x5C \<notin> set part \<and> CHR 0x00 \<notin> set part"
    using split_slash_parts t by blast
  then have "list_all good_part (foldl sanitize_step [] (split_slash t))"
    by (intro foldl_sanitize_good) simp_all
  moreover have "sanitizePath s = join_slash (foldl sanitize_step [] (split_slash t))"
    using False by (simp add: sanitizePath_def t_def Let_def)
  ultimately show ?thesis by blast
qed

lemma foldl_sanitize_of_good:
  "list_all good_part ps \<Longrightarrow>
     foldl sanitize_step acc ps = acc @ filter (\<lambda>p. p \<noteq> ''.'') ps"
proof (induction ps arbitrary: acc)
  case Nil
  then show ?case by simp
next
  case (Cons p ps)
  then have g: "good_part p" by simp
  then have "p \<noteq> []" "p \<noteq> ''..''" "clean_part p = p"
    using clean_part_of_good by (auto simp: good_part_def)
  then have "sanitize_step acc p = (if p = ''.'' then acc else acc @ [p])"
    by (simp add: sanitize_step_def)
  with Cons show ?case by simp
qed

lemma join_good_unchanged:
  assumes "list_all good_part ps" "ps \<noteq> []"
  shows "strip_slashes (js_trim (map (\<lambda>c. if c = CHR 0x5C then CHR ''/'' else c)
            (filter (\<lambda>c. c \<noteq> CHR 0x00) (join_slash ps)))) = join_slash ps"
    and "join_slash ps \<noteq> []"
proof -
  let ?j = "join_slash ps"
  have each: "\<forall>p\<in>set ps. good_part p" using assms(1) by (simp add: list_all_iff)
  have hdg: "good_part (hd ps)" and lastg: "good_part (last ps)"
    using each assms(2) by auto
  have ne: "?j \<noteq> []" and h: "hd ?j = hd (hd ps)"
    using join_slash_hd [of ps] assms(2) hdg by (auto simp: good_part_def)
  have l: "last ?j = last (last ps)"
    using join_slash_last [of ps] assms(2) lastg by (auto simp: good_part_def)
  have "set ?j \<subseteq> insert (CHR ''/'') (\<Union>p\<in>set ps. set p)" by (rule join_slash_set)
  with each have nb: "CHR 0x5C \<notin> set ?j" and nz: "CHR 0x00 \<notin> set ?j"
    by (auto simp: good_part_def)
  from nz have f: "filter (\<lambda>c. c \<noteq> CHR 0x00) ?j = ?j" by (auto simp: filter_id_conv)
  have m: "map (\<lambda>c. if c = CHR 0x5C then CHR ''/'' else c) ?j = ?j"
    by (rule map_idI) (use nb in auto)
  have hs: "\<not> is_space (hd ?j)" "\<not> is_space (last ?j)"
    using h l hdg lastg by (auto simp: good_part_def)
  have "hd (hd ps) \<noteq> CHR ''/''" using hdg by (metis good_part_def hd_in_set)
  moreover have "last (last ps) \<noteq> CHR ''/''" using lastg by (metis good_part_def last_in_set)
  ultimately have sl: "hd ?j \<noteq> CHR ''/''" "last ?j \<noteq> CHR ''/''"
    using h l by simp_all
  have "js_trim ?j = ?j" unfolding js_trim_def using ne hs by (intro strip_both_id)
  moreover have "strip_slashes ?j = ?j" unfolding strip_slashes_def using ne sl
    by (intro strip_both_id) auto
  ultimately show "strip_slashes (js_trim (map (\<lambda>c. if c = CHR 0x5C then CHR ''/'' else c)
            (filter (\<lambda>c. c \<noteq> CHR 0x00) (join_slash ps)))) = join_slash ps"
    using f m by simp
  show "join_slash ps \<noteq> []" by (rule ne)
qed

lemma sanitizePath_join_good:
  assumes "list_all good_part ps"
  shows "sanitizePath (join_slash ps) = join_slash (filter (\<lambda>p. p \<noteq> ''.'') ps)"
proof (cases "ps = []")
  case True
  then show ?thesis by (simp add: sanitizePath_def)
next
  case False
  have noslash: "\<forall>p\<in>set ps. CHR ''/'' \<notin> set p"
    using assms by (simp add: list_all_iff good_part_def)
  have "sanitizePath (join_slash ps) = join_slash (foldl sanitize_step [] (split_slash (join_slash ps)))"
    using join_good_unchanged [OF assms False] by (simp add: sanitizePath_def Let_def)
  also have "split_slash (join_slash ps) = ps" using split_join [OF False noslash] .
  also have "foldl sanitize_step [] ps = filter (\<lambda>p. p \<noteq> ''.'') ps"
    using foldl_sanitize_of_good [OF assms, of "[]"] by simp
  finally show ?thesis .
qed



lemma exists_suffix_here: "P s \<Longrightarrow> exists_suffix P s"
  by (cases s) auto

lemma exists_suffix_append: "P t \<Longrightarrow> exists_suffix P (a @ t)"
  by (induction a) (auto simp: exists_suffix_here)


lemma traversal_invalid: "\<not> isValidPath (a @ ''../'' @ b)"
proof -
  have "exists_suffix (starts_cs ''..'' slash_or_end) (a @ ''../'' @ b)"
    by (rule exists_suffix_append) (simp add: starts_cs_def)
  then have "list_ex (\<lambda>pattern. pattern (a @ ''../'' @ b)) dangerousPatterns"
    by (simp add: dangerousPatterns_def)
  then show ?thesis by (simp add: isValidPath_def)
qed


text \<open>
  Claim C10 fails as stated: a part that is cleaned to a single dot (three dots, for
  one) is kept by the first pass and skipped by the second.
\<close>

theorem sanitizePath_not_idempotent:
  "sanitizePath (sanitizePath ''...'') \<noteq> sanitizePath ''...''"
  by (simp add: sanitizePath_def sanitize_step_def clean_part_def js_trim_def
      strip_slashes_def is_space_def is_invalid_char_def)

text \<open>
  Claim C10, amended. A second pass of \<^term>\<open>sanitizePath\<close> changes nothing exactly when
  no part of the first result is a single dot.
\<close>

theorem sanitizePath_idempotent_iff:
  "sanitizePath (sanitizePath s) = sanitizePath s \<longleftrightarrow> ''.'' \<notin> set (split_slash (sanitizePath s))"
proof -
  obtain ps where g: "list_all good_part ps" and s: "sanitizePath s = join_slash ps"
    using sanitizePath_parts by blast
  have twice: "sanitizePath (sanitizePath s) = join_slash (filter (\<lambda>p. p \<noteq> ''.'') ps)"
    using sanitizePath_join_good [OF g] s by simp
  show ?thesis
  proof (cases "ps = []")
    case True
    then show ?thesis using s twice by simp
  next
    case False
    have noslash: "\<forall>p\<in>set ps. CHR ''/'' \<notin> set p"
      using g by (simp add: list_all_iff good_part_def)
    have sp: "split_slash (sanitizePath s) = ps" using split_join [OF False noslash] s by simp
    show ?thesis
    proof (cases "''.'' \<in> set ps")
      case False
      then have "filter (\<lambda>p. p \<noteq> ''.'') ps = ps" by (auto simp: filter_id_conv)
      then show ?thesis using twice s sp False by simp
    next
      case True
      let ?qs = "filter (\<lambda>p. p \<noteq> ''.'') ps"
      have "join_slash ?qs \<noteq> join_slash ps"
      proof (cases "?qs = []")
        case True
        then show ?thesis using join_good_unchanged(2) [OF g \<open>ps \<noteq> []\<close>] by simp
      next
        case False
        have "split_slash (join_slash ?qs) = ?qs"
          using split_join [OF False] noslash by simp
        moreover have "?qs \<noteq> ps" using True by (metis (mono_tags, lifting) filter_id_conv)
        ultimately show ?thesis using split_join [OF \<open>ps \<noteq> []\<close> noslash] by metis
      qed
      then show ?thesis using twice s sp True by simp
    qed
  qed
qed

theorem sanitizePath_idempotent_iff_witness:
  "sanitizePath (sanitizePath ''a/b/../c'') = sanitizePath ''a/b/../c''
   \<and> ''.'' \<notin> set (split_slash (sanitizePath ''a/b/../c''))"
proof -
  have "sanitizePath ''a/b/../c'' = ''a/c''"
    by (simp add: sanitizePath_def sanitize_step_def clean_part_def js_trim_def
        strip_slashes_def is_space_def is_invalid_char_def)
  then have "''.'' \<notin> set (split_slash (sanitizePath ''a/b/../c''))" by simp
  then show ?thesis using sanitizePath_idempotent_iff [of "''a/b/../c''"] by simp
qed

section \<open>The upload queue\<close>

lemmas queue_eval =
  new_UploadQueue_def addUploadJob_def pq_enqueue_def try_start_def tryToStartAnother_def
  start_job_def emit_def find_job_def delete_job_def release_slot_def pause_def start_def
  processQueue_def job_fails_def job_catch_def job_succeeds_def job_try_def job_times_out_def
  checkRateLimits_def handleRateLimitExceeded_def waitTime_of_def timer_fires_def Let_def

lemma try_start_paused: "isPaused u \<Longrightarrow> try_start u = u"
  by (simp add: try_start_def tryToStartAnother_def split: list.splits)

lemma release_slot_paused:
  assumes "isPaused u"
  shows "release_slot jobId u = u\<lparr> running := filter (\<lambda>i. i \<noteq> jobId) (running u) \<rparr>"
proof (cases "jobId \<in> set (running u)")
  case True
  have "isPaused (u\<lparr> running := filter (\<lambda>i. i \<noteq> jobId) (running u) \<rparr>)" using assms by simp
  then show ?thesis using True by (simp add: release_slot_def try_start_paused)
next
  case False
  then have "filter (\<lambda>i. i \<noteq> jobId) (running u) = running u"
    by (auto simp: filter_id_conv)
  with False show ?thesis by (simp add: release_slot_def)
qed

lemma isPaused_start_job [simp]: "isPaused (start_job j u) = isPaused u"
  by (simp add: start_job_def emit_def)

lemma timers_start_job [simp]: "timers (start_job j u) = timers u"
  by (simp add: start_job_def emit_def)

lemma stats_start_job [simp]: "stats (start_job j u) = stats u"
  by (simp add: start_job_def emit_def)

lemma processQueue_rounds_keeps:
  "isPaused (processQueue_rounds n u) = isPaused u
   \<and> timers (processQueue_rounds n u) = timers u
   \<and> stats (processQueue_rounds n u) = stats u"
  by (induction n arbitrary: u)
     (auto simp: tryToStartAnother_def split: option.splits list.splits if_splits)

lemma start_unpauses: "\<not> isPaused (start u) \<and> timers (start u) = timers u \<and> stats (start u) = stats u"
  by (simp add: start_def processQueue_def processQueue_rounds_keeps)

lemma handle_valid:
  assumes "\<bar>r * 1000\<bar> \<le> 8640000000000000"
  shows "handleRateLimitExceeded (Num r) now u =
           Some (u\<lparr> emitted := emitted u @ [RateLimitExceeded (Num (r * 1000)) (Num (max 1000 (r * 1000 - now + 1000)))],
                    isPaused := True,
                    timers := timers u @ [Num (max 1000 (r * 1000 - now + 1000))] \<rparr>)"
  using assms by (simp add: handleRateLimitExceeded_def waitTime_of_def emit_def pause_def Let_def)

lemma job_fails_quota:
  assumes "find_job jobId (activeUploads u) = Some j"
      and "e_status err = Some 403" "e_remaining err = Some ''0''"
      and "e_reset err = Num r" "\<bar>r * 1000\<bar> \<le> 8640000000000000"
  shows "job_fails jobId err now u =
           u\<lparr> stats := (stats u)\<lparr> failedJobs := failedJobs (stats u) + 1,
                                   rateLimitHits := rateLimitHits (stats u) + 1 \<rparr>,
               emitted := emitted u @
                 [RateLimitExceeded (Num (r * 1000)) (Num (max 1000 (r * 1000 - now + 1000))),
                  JobError (job_id j) (job_sessionId j) (job_filePath j) (Some 403)],
               isPaused := True,
               timers := timers u @ [Num (max 1000 (r * 1000 - now + 1000))],
               activeUploads := delete_job (job_id j) (activeUploads u),
               running := filter (\<lambda>i. i \<noteq> jobId) (running u) \<rparr>"
proof -
  let ?c = "job_catch j err now u"
  have c: "?c = u\<lparr> stats := (stats u)\<lparr> failedJobs := failedJobs (stats u) + 1,
                                         rateLimitHits := rateLimitHits (stats u) + 1 \<rparr>,
                   emitted := emitted u @
                     [RateLimitExceeded (Num (r * 1000)) (Num (max 1000 (r * 1000 - now + 1000))),
                      JobError (job_id j) (job_sessionId j) (job_filePath j) (Some 403)],
                   isPaused := True,
                   timers := timers u @ [Num (max 1000 (r * 1000 - now + 1000))],
                   activeUploads := delete_job (job_id j) (activeUploads u) \<rparr>"
    using assms(2-5) by (simp add: job_catch_def handle_valid emit_def Let_def)
  have "isPaused ?c" by (simp add: c)
  then have "release_slot jobId ?c = ?c\<lparr> running := filter (\<lambda>i. i \<noteq> jobId) (running ?c) \<rparr>"
    by (rule release_slot_paused)
  then show ?thesis using assms(1) by (simp add: job_fails_def c)
qed

lemma emitted_start_job: "emitted (start_job j u) = emitted u @ [JobStart (job_id j) (job_sessionId j) (job_filePath j)]"
  by (simp add: start_job_def emit_def)

lemma tryToStartAnother_emitted:
  "tryToStartAnother u = Some u' \<Longrightarrow> \<exists>e. is_job_start e \<and> emitted u' = emitted u @ [e]"
  by (auto simp: tryToStartAnother_def emitted_start_job split: list.splits if_splits)

lemma processQueue_rounds_emitted:
  "\<exists>evs. list_all is_job_start evs \<and> emitted (processQueue_rounds n u) = emitted u @ evs"
proof (induction n arbitrary: u)
  case 0
  then show ?case by simp
next
  case (Suc n)
  show ?case
  proof (cases "tryToStartAnother u")
    case None
    then show ?thesis by simp
  next
    case (Some u')
    then obtain e where e: "is_job_start e" "emitted u' = emitted u @ [e]"
      using tryToStartAnother_emitted by blast
    obtain evs where "list_all is_job_start evs" "emitted (processQueue_rounds n u') = emitted u' @ evs"
      using Suc.IH by blast
    with e Some have "list_all is_job_start (e # evs) \<and> emitted (processQueue_rounds (Suc n) u) = emitted u @ (e # evs)"
      by simp
    then show ?thesis by blast
  qed
qed

lemma start_emitted: "\<exists>evs. list_all is_job_start evs \<and> emitted (start u) = emitted u @ evs"
proof (cases "isPaused u")
  case False
  then have "list_all is_job_start [] \<and> emitted (start u) = emitted u @ []" by (simp add: start_def)
  then show ?thesis by blast
next
  case True
  then show ?thesis
    using processQueue_rounds_emitted [of "length (waiting u)" "u\<lparr> isPaused := False \<rparr>"]
    by (simp add: start_def processQueue_def)
qed

lemma job_starts_filtered:
  assumes "list_all is_job_start evs"
  shows "filter is_exceeded evs = []" "filter is_resumed evs = []" "filter is_job_error evs = []"
proof -
  have "\<not> is_exceeded e \<and> \<not> is_resumed e \<and> \<not> is_job_error e" if "is_job_start e" for e
    using that by (cases e) simp_all
  with assms show "filter is_exceeded evs = []" "filter is_resumed evs = []" "filter is_job_error evs = []"
    by (auto simp: list_all_iff filter_empty_conv)
qed

lemma timer_fires_counts:
  assumes "i < length (timers u)"
  shows "length (timers (timer_fires i u)) = length (timers u) - 1"
    and "filter is_resumed (emitted (timer_fires i u)) = filter is_resumed (emitted u) @ [RateLimitResumed]"
    and "filter is_exceeded (emitted (timer_fires i u)) = filter is_exceeded (emitted u)"
    and "\<not> isPaused (timer_fires i u)"
proof -
  let ?v = "u\<lparr> timers := take i (timers u) @ drop (Suc i) (timers u) \<rparr>"
  have f: "timer_fires i u = emit RateLimitResumed (start ?v)" using assms by (simp add: timer_fires_def)
  obtain evs where evs: "list_all is_job_start evs" "emitted (start ?v) = emitted u @ evs"
    using start_emitted [of ?v] by auto
  show "length (timers (timer_fires i u)) = length (timers u) - 1"
    using assms start_unpauses [of ?v] by (simp add: f emit_def)
  show "filter is_resumed (emitted (timer_fires i u)) = filter is_resumed (emitted u) @ [RateLimitResumed]"
    using evs job_starts_filtered(2) [OF evs(1)] by (simp add: f emit_def)
  show "filter is_exceeded (emitted (timer_fires i u)) = filter is_exceeded (emitted u)"
    using evs job_starts_filtered(1) [OF evs(1)] by (simp add: f emit_def)
  show "\<not> isPaused (timer_fires i u)"
    using start_unpauses [of ?v] by (simp add: f emit_def)
qed

lemma two_active_eval:
  "two_active =
     \<lparr> concurrency = 3, isPaused = False, waiting = [], running = [0, 1],
       activeUploads =
         [\<lparr> job_id = 0, job_sessionId = ''s1'', job_filePath = ''a.txt'', job_priority = 0 \<rparr>,
          \<lparr> job_id = 1, job_sessionId = ''s2'', job_filePath = ''b.txt'', job_priority = 1 \<rparr>],
       stats = \<lparr> totalJobs = 2, completedJobs = 0, failedJobs = 0, rateLimitHits = 0 \<rparr>,
       timers = [],
       emitted = [JobStart 0 ''s1'' ''a.txt'', JobStart 1 ''s2'' ''b.txt''] \<rparr>"
  by (simp add: two_active_def one_active_def queue_eval)

lemma first_hit_eval:
  "first_hit =
     \<lparr> concurrency = 3, isPaused = True, waiting = [], running = [1],
       activeUploads =
         [\<lparr> job_id = 1, job_sessionId = ''s2'', job_filePath = ''b.txt'', job_priority = 1 \<rparr>],
       stats = \<lparr> totalJobs = 2, completedJobs = 0, failedJobs = 1, rateLimitHits = 1 \<rparr>,
       timers = [Num 11000],
       emitted = [JobStart 0 ''s1'' ''a.txt'', JobStart 1 ''s2'' ''b.txt'',
                  RateLimitExceeded (Num 1700000000000) (Num 11000),
                  JobError 0 ''s1'' ''a.txt'' (Some 403)] \<rparr>"
  by (simp add: first_hit_def two_active_eval quota_error_def queue_eval)

lemma processQueue_rounds_exact:
  assumes "\<not> isPaused v"
  shows "waiting (processQueue_rounds n v) = drop (min n (dispatchable v)) (waiting v)
       \<and> running (processQueue_rounds n v)
           = running v @ map job_id (take (min n (dispatchable v)) (waiting v))
       \<and> activeUploads (processQueue_rounds n v)
           = activeUploads v @ take (min n (dispatchable v)) (waiting v)
       \<and> emitted (processQueue_rounds n v)
           = emitted v @ map jobStart_of (take (min n (dispatchable v)) (waiting v))
       \<and> concurrency (processQueue_rounds n v) = concurrency v"
  using assms
proof (induction n arbitrary: v)
  case 0
  then show ?case by simp
next
  case (Suc n)
  show ?case
  proof (cases "waiting v")
    case Nil
    then show ?thesis by (simp add: tryToStartAnother_def dispatchable_def)
  next
    case (Cons j rest)
    show ?thesis
    proof (cases "length (running v) < concurrency v")
      case False
      then show ?thesis using Cons Suc.prems by (simp add: tryToStartAnother_def dispatchable_def)
    next
      case True
      let ?v1 = "start_job j (v\<lparr> waiting := rest \<rparr>)"
      have t: "tryToStartAnother v = Some ?v1"
        using Cons True Suc.prems by (simp add: tryToStartAnother_def)
      have v1: "\<not> isPaused ?v1" "waiting ?v1 = rest" "running ?v1 = running v @ [job_id j]"
        "activeUploads ?v1 = activeUploads v @ [j]" "emitted ?v1 = emitted v @ [jobStart_of j]"
        "concurrency ?v1 = concurrency v"
        using Suc.prems by (simp_all add: start_job_def emit_def jobStart_of_def)
      have c: "concurrency v - length (running v) = Suc (concurrency v - Suc (length (running v)))"
        using True by simp
      have k: "min (Suc n) (dispatchable v) = Suc (min n (dispatchable ?v1))"
        by (simp add: dispatchable_def v1 Cons c)
      show ?thesis
        using Suc.IH [OF v1(1)] unfolding k by (simp add: t v1 Cons)
    qed
  qed
qed

lemma start_exact:
  assumes "isPaused u"
  shows "waiting (start u) = drop (dispatchable u) (waiting u)
       \<and> running (start u) = running u @ map job_id (take (dispatchable u) (waiting u))
       \<and> activeUploads (start u) = activeUploads u @ take (dispatchable u) (waiting u)
       \<and> emitted (start u) = emitted u @ map jobStart_of (take (dispatchable u) (waiting u))"
proof -
  have n: "\<not> isPaused (u\<lparr> isPaused := False \<rparr>)" by simp
  have d: "min (length (waiting u)) (dispatchable (u\<lparr> isPaused := False \<rparr>)) = dispatchable u"
    by (simp add: dispatchable_def)
  from processQueue_rounds_exact [OF n, of "length (waiting u)"]
  show ?thesis using assms unfolding d by (simp add: start_def processQueue_def)
qed

lemma saturated_eval:
  "saturated =
     \<lparr> concurrency = 1, isPaused = False,
       waiting = [\<lparr> job_id = 1, job_sessionId = ''s1'', job_filePath = ''b.txt'', job_priority = 0 \<rparr>],
       running = [0],
       activeUploads =
         [\<lparr> job_id = 0, job_sessionId = ''s1'', job_filePath = ''a.txt'', job_priority = 0 \<rparr>],
       stats = \<lparr> totalJobs = 2, completedJobs = 0, failedJobs = 0, rateLimitHits = 0 \<rparr>,
       timers = [],
       emitted = [JobStart 0 ''s1'' ''a.txt''] \<rparr>"
  by (simp add: saturated_def queue_eval)

text \<open>
  Claim C7 fails as stated. A job fails with status 403 and the header
  \<^verbatim>\<open>x-ratelimit-remaining\<close> equal to \<^verbatim>\<open>0\<close>, and the response has no header
  \<^verbatim>\<open>x-ratelimit-reset\<close>: the hit is counted, and then \<^verbatim>\<open>toISOString\<close> throws
  in \<^verbatim>\<open>handleRateLimitExceeded\<close>, so the queue is not paused, no timer is started
  and no event is emitted.
\<close>

theorem exhaustion_without_reset_time:
  "e_status no_reset_error = Some 403 \<and> e_remaining no_reset_error = Some ''0''
   \<and> rateLimitHits (stats (job_fails 0 no_reset_error 1699999990000 one_active)) = 1
   \<and> \<not> isPaused (job_fails 0 no_reset_error 1699999990000 one_active)
   \<and> timers (job_fails 0 no_reset_error 1699999990000 one_active) = []
   \<and> emitted (job_fails 0 no_reset_error 1699999990000 one_active) = [JobStart 0 ''s1'' ''a.txt'']"
  by (simp add: no_reset_error_def one_active_def queue_eval)

text \<open>
  Claim C7, amended. A job that fails with status 403 and the header
  \<^verbatim>\<open>x-ratelimit-remaining\<close> equal to \<^verbatim>\<open>0\<close>, with a reset header that is a time
  value, counts one more \<^term>\<open>rateLimitHits\<close>, computes the wait time as the maximum
  of 1000 and \<open>resetTime - now + 1000\<close>, emits \<^term>\<open>RateLimitExceeded\<close> with it (and
  then \<^term>\<open>JobError\<close>), pauses the queue so that no waiting job starts, and adds one
  timer with that delay. When that timer fires the queue is resumed: it is not paused
  any more, the waiting jobs are started from the head of the queue for as many as
  there are free slots, and \<^term>\<open>RateLimitResumed\<close> is emitted after their
  \<^term>\<open>JobStart\<close> events.
\<close>

theorem quota_exhaustion_cycle:
  fixes now :: int
  assumes active: "find_job jobId (activeUploads u) = Some j"
      and denied: "e_status err = Some 403"
      and zero: "e_remaining err = Some ''0''"
      and reset: "e_reset err = Num r" "\<bar>r * 1000\<bar> \<le> 8640000000000000"
  defines "waitTime \<equiv> Num (max 1000 (r * 1000 - now + 1000))"
  defines "u' \<equiv> job_fails jobId err now u"
  defines "resumed \<equiv> timer_fires (length (timers u)) u'"
  defines "k \<equiv> dispatchable u'"
  shows "rateLimitHits (stats u') = rateLimitHits (stats u) + 1
       \<and> failedJobs (stats u') = failedJobs (stats u) + 1
       \<and> isPaused u'
       \<and> waiting u' = waiting u
       \<and> running u' = filter (\<lambda>i. i \<noteq> jobId) (running u)
       \<and> emitted u' = emitted u @
            [RateLimitExceeded (Num (r * 1000)) waitTime,
             JobError (job_id j) (job_sessionId j) (job_filePath j) (Some 403)]
       \<and> timers u' = timers u @ [waitTime]
       \<and> \<not> isPaused resumed
       \<and> timers resumed = timers u
       \<and> waiting resumed = drop k (waiting u)
       \<and> running resumed = running u' @ map job_id (take k (waiting u))
       \<and> emitted resumed = emitted u' @ map jobStart_of (take k (waiting u)) @ [RateLimitResumed]"
proof -
  note eq = job_fails_quota [OF active denied zero reset, of now]
  have facts: "rateLimitHits (stats u') = rateLimitHits (stats u) + 1"
    "failedJobs (stats u') = failedJobs (stats u) + 1" "isPaused u'" "waiting u' = waiting u"
    "running u' = filter (\<lambda>i. i \<noteq> jobId) (running u)"
    "emitted u' = emitted u @
            [RateLimitExceeded (Num (r * 1000)) waitTime,
             JobError (job_id j) (job_sessionId j) (job_filePath j) (Some 403)]"
    "timers u' = timers u @ [waitTime]" "concurrency u' = concurrency u"
    unfolding u'_def waitTime_def by (simp_all add: eq)
  let ?v = "u'\<lparr> timers := timers u \<rparr>"
  have f: "resumed = emit RateLimitResumed (start ?v)"
    unfolding resumed_def using facts(7) by (simp add: timer_fires_def)
  have p: "isPaused ?v" using facts(3) by simp
  have s: "waiting (start ?v) = drop k (waiting u)"
    "running (start ?v) = running u' @ map job_id (take k (waiting u))"
    "emitted (start ?v) = emitted u' @ map jobStart_of (take k (waiting u))"
    using start_exact [OF p] facts(4,8) unfolding k_def by (simp_all add: dispatchable_def)
  have "\<not> isPaused resumed" "timers resumed = timers u"
    "waiting resumed = drop k (waiting u)"
    "running resumed = running u' @ map job_id (take k (waiting u))"
    "emitted resumed = emitted u' @ map jobStart_of (take k (waiting u)) @ [RateLimitResumed]"
    using start_unpauses [of ?v] s by (simp_all add: f emit_def)
  with facts show ?thesis by simp
qed

theorem quota_exhaustion_cycle_witness:
  "find_job 0 (activeUploads saturated)
     = Some \<lparr> job_id = 0, job_sessionId = ''s1'', job_filePath = ''a.txt'', job_priority = 0 \<rparr>
   \<and> e_status quota_error = Some 403 \<and> e_remaining quota_error = Some ''0''
   \<and> e_reset quota_error = Num 1700000000 \<and> \<bar>1700000000 * 1000 :: int\<bar> \<le> 8640000000000000
   \<and> waiting saturated
     = [\<lparr> job_id = 1, job_sessionId = ''s1'', job_filePath = ''b.txt'', job_priority = 0 \<rparr>]
   \<and> rateLimitHits (stats (job_fails 0 quota_error 1699999990000 saturated)) = 1
   \<and> isPaused (job_fails 0 quota_error 1699999990000 saturated)
   \<and> running (job_fails 0 quota_error 1699999990000 saturated) = []
   \<and> emitted (job_fails 0 quota_error 1699999990000 saturated) =
        [JobStart 0 ''s1'' ''a.txt'',
         RateLimitExceeded (Num 1700000000000) (Num 11000),
         JobError 0 ''s1'' ''a.txt'' (Some 403)]
   \<and> timers (job_fails 0 quota_error 1699999990000 saturated) = [Num 11000]
   \<and> \<not> isPaused (timer_fires 0 (job_fails 0 quota_error 1699999990000 saturated))
   \<and> waiting (timer_fires 0 (job_fails 0 quota_error 1699999990000 saturated)) = []
   \<and> running (timer_fires 0 (job_fails 0 quota_error 1699999990000 saturated)) = [1]
   \<and> emitted (timer_fires 0 (job_fails 0 quota_error 1699999990000 saturated)) =
        [JobStart 0 ''s1'' ''a.txt'',
         RateLimitExceeded (Num 1700000000000) (Num 11000),
         JobError 0 ''s1'' ''a.txt'' (Some 403),
         JobStart 1 ''s1'' ''b.txt'',
         RateLimitResumed]"
proof -
  have a: "find_job 0 (activeUploads saturated)
     = Some \<lparr> job_id = 0, job_sessionId = ''s1'', job_filePath = ''a.txt'', job_priority = 0 \<rparr>"
    by (simp add: saturated_eval find_job_def)
  have h: "e_status quota_error = Some 403" "e_remaining quota_error = Some ''0''"
    "e_reset quota_error = Num 1700000000" "\<bar>1700000000 * 1000 :: int\<bar> \<le> 8640000000000000"
    by (simp_all add: quota_error_def)
  have e: "emitted saturated = [JobStart 0 ''s1'' ''a.txt'']" "timers saturated = []"
    "rateLimitHits (stats saturated) = 0" "running saturated = [0]" "concurrency saturated = 1"
    "waiting saturated
       = [\<lparr> job_id = 1, job_sessionId = ''s1'', job_filePath = ''b.txt'', job_priority = 0 \<rparr>]"
    by (simp_all add: saturated_eval)
  have c: "concurrency (job_fails 0 quota_error 1699999990000 saturated) = 1"
    by (simp add: saturated_eval quota_error_def queue_eval)
  show ?thesis
    using quota_exhaustion_cycle [OF a h, of 1699999990000] a e h c
    by (simp add: jobStart_of_def dispatchable_def)
qed

text \<open>
  Claim C3 fails as stated. Two jobs are active; the first fails on an exhausted quota
  and pauses the queue; the second then fails the same way while the queue is paused. A
  second timer is started and a second \<^term>\<open>RateLimitExceeded\<close> is emitted, and when
  both timers have fired \<^term>\<open>RateLimitResumed\<close> has been emitted twice.
\<close>

theorem second_exhaustion_starts_second_cycle:
  "isPaused first_hit
   \<and> timers first_hit = [Num 11000]
   \<and> timers (job_fails 1 quota_error 1699999991000 first_hit) = [Num 11000, Num 10000]
   \<and> filter is_exceeded (emitted (job_fails 1 quota_error 1699999991000 first_hit)) =
        [RateLimitExceeded (Num 1700000000000) (Num 11000),
         RateLimitExceeded (Num 1700000000000) (Num 10000)]
   \<and> filter is_resumed
        (emitted (timer_fires 0 (timer_fires 0 (job_fails 1 quota_error 1699999991000 first_hit)))) =
        [RateLimitResumed, RateLimitResumed]"
  by (simp add: first_hit_eval quota_error_def queue_eval)

text \<open>
  Claim C3, amended. Every failure on an exhausted quota (with a reset header that is
  a time value) starts one more timer and emits one more \<^term>\<open>RateLimitExceeded\<close>,
  whether the queue is paused already or not; every timer that fires takes itself off
  the list, emits one \<^term>\<open>RateLimitResumed\<close> and leaves the queue not paused.
\<close>

theorem every_exhaustion_starts_a_cycle:
  assumes "find_job jobId (activeUploads u) = Some j"
      and "e_status err = Some 403" "e_remaining err = Some ''0''"
      and "e_reset err = Num r" "\<bar>r * 1000\<bar> \<le> 8640000000000000"
  shows "length (timers (job_fails jobId err now u)) = length (timers u) + 1
       \<and> length (filter is_exceeded (emitted (job_fails jobId err now u)))
           = length (filter is_exceeded (emitted u)) + 1
       \<and> filter is_resumed (emitted (job_fails jobId err now u)) = filter is_resumed (emitted u)
       \<and> (\<forall>i < length (timers (job_fails jobId err now u)).
             length (timers (timer_fires i (job_fails jobId err now u))) = length (timers u)
           \<and> length (filter is_resumed (emitted (timer_fires i (job_fails jobId err now u))))
               = length (filter is_resumed (emitted u)) + 1
           \<and> \<not> isPaused (timer_fires i (job_fails jobId err now u)))"
proof -
  let ?u' = "job_fails jobId err now u"
  note eq = job_fails_quota [OF assms, of now]
  have a: "length (timers ?u') = length (timers u) + 1"
    "length (filter is_exceeded (emitted ?u')) = length (filter is_exceeded (emitted u)) + 1"
    "filter is_resumed (emitted ?u') = filter is_resumed (emitted u)"
    by (simp_all add: eq)
  have "length (timers (timer_fires i ?u')) = length (timers u)
      \<and> length (filter is_resumed (emitted (timer_fires i ?u'))) = length (filter is_resumed (emitted u)) + 1
      \<and> \<not> isPaused (timer_fires i ?u')" if "i < length (timers ?u')" for i
    using timer_fires_counts [OF that] a by simp
  with a show ?thesis by blast
qed

theorem every_exhaustion_starts_a_cycle_witness:
  "isPaused first_hit
   \<and> find_job 1 (activeUploads first_hit) =
        Some \<lparr> job_id = 1, job_sessionId = ''s2'', job_filePath = ''b.txt'', job_priority = 1 \<rparr>
   \<and> e_status quota_error = Some 403 \<and> e_remaining quota_error = Some ''0''
   \<and> e_reset quota_error = Num 1700000000 \<and> \<bar>1700000000 * 1000 :: int\<bar> \<le> 8640000000000000
   \<and> length (timers (job_fails 1 quota_error 1699999991000 first_hit)) = 2
   \<and> length (filter is_exceeded (emitted (job_fails 1 quota_error 1699999991000 first_hit))) = 2
   \<and> length (timers (timer_fires 1 (job_fails 1 quota_error 1699999991000 first_hit))) = 1
   \<and> length (filter is_resumed (emitted (timer_fires 1 (job_fails 1 quota_error 1699999991000 first_hit)))) = 1"
proof -
  have a: "find_job 1 (activeUploads first_hit) =
        Some \<lparr> job_id = 1, job_sessionId = ''s2'', job_filePath = ''b.txt'', job_priority = 1 \<rparr>"
    by (simp add: first_hit_eval find_job_def)
  have h: "e_status quota_error = Some 403" "e_remaining quota_error = Some ''0''"
    "e_reset quota_error = Num 1700000000" "\<bar>1700000000 * 1000 :: int\<bar> \<le> 8640000000000000"
    by (simp_all add: quota_error_def)
  have p: "isPaused first_hit" "length (timers first_hit) = 1"
    "filter is_exceeded (emitted first_hit) = [RateLimitExceeded (Num 1700000000000) (Num 11000)]"
    "filter is_resumed (emitted first_hit) = []"
    by (simp_all add: first_hit_eval)
  show ?thesis
    using every_exhaustion_starts_a_cycle [OF a h, of 1699999991000] a h p by simp
qed

section \<open>The routes\<close>

lemma valid_a: "isValidPath ''a.txt''" by code_simp
lemma valid_big: "isValidPath ''big.txt''" by code_simp

lemmas system_eval =
  run_def init_def post_start_def post_execute_def post_cancel_def requireInstallation_def
  settle_promise_def fire_watchers_def mark_completed_def setupSSE_def disconnect_def
  holds_slot_def is_active_def endsWith_def includes_str_def or_default_def totalSize_def
  start_req_def zip_upload_def text_file_def ok_headers_def default_env_def two_slots_env_def
  upload_single_def fileFilter_def allowedMimeTypes_def fileSize_limit_def error_handler_def

lemma one_file_started_eval:
  "one_file_started =
     \<lparr> uploadQueue =
         \<lparr> concurrency = 3, isPaused = False, waiting = [], running = [0],
           activeUploads =
             [\<lparr> job_id = 0, job_sessionId = ''s1'', job_filePath = ''a.txt'', job_priority = 0 \<rparr>],
           stats = \<lparr> totalJobs = 1, completedJobs = 0, failedJobs = 0, rateLimitHits = 0 \<rparr>,
           timers = [],
           emitted = [JobStart 0 ''s1'' ''a.txt''] \<rparr>,
       sessions = (\<lambda>sid. None)(''s1'' \<mapsto>
         \<lparr> s_files = [text_file ''a.txt''], s_owner = ''octo'', s_repo = ''site'', s_branch = ''main'',
           s_installationId = 7, s_status = Uploading,
           s_stats = \<lparr> st_total = 1, st_completed = 0, st_failed = 0 \<rparr> \<rparr>),
       watchers = [(''s1'', [0])],
       next_jobId = 1,
       clients = [],
       process_env = default_env \<rparr>"
  by (simp add: one_file_started_def system_eval queue_eval valid_a)

text \<open>
  Claim C1, at a concrete batch. One valid file is uploaded, the batch is executed, and
  its only job succeeds: the status of the batch is \<^term>\<open>Completed\<close>, the counters of
  the queue have counted the job, and the counters of the batch are both still zero,
  so their sum is not the total.
\<close>

theorem completed_batch_has_zero_counters:
  "map_option s_status (sessions (step (JobSucceeds 0 ok_headers 1699999990000) one_file_started) ''s1'')
     = Some Completed
   \<and> map_option s_stats (sessions (step (JobSucceeds 0 ok_headers 1699999990000) one_file_started) ''s1'')
     = Some \<lparr> st_total = 1, st_completed = 0, st_failed = 0 \<rparr>
   \<and> stats (uploadQueue (step (JobSucceeds 0 ok_headers 1699999990000) one_file_started))
     = \<lparr> totalJobs = 1, completedJobs = 1, failedJobs = 0, rateLimitHits = 0 \<rparr>"
  by (simp add: one_file_started_eval system_eval queue_eval)

text \<open>
  Claim C6 fails as stated. The only job of a batch exceeds the timeout of the queue:
  no failure is counted, no \<^term>\<open>JobError\<close> is emitted, the promise of the job is
  fulfilled, and the batch is \<^term>\<open>Completed\<close> with no failed job.
\<close>

theorem timed_out_job_not_marked_failed:
  "failedJobs (stats (uploadQueue (step (JobTimesOut 0) one_file_started))) = 0
   \<and> emitted (uploadQueue (step (JobTimesOut 0) one_file_started)) = [JobStart 0 ''s1'' ''a.txt'']
   \<and> map_option s_status (sessions (step (JobTimesOut 0) one_file_started) ''s1'') = Some Completed
   \<and> map_option s_stats (sessions (step (JobTimesOut 0) one_file_started) ''s1'')
       = Some \<lparr> st_total = 1, st_completed = 0, st_failed = 0 \<rparr>"
  by (simp add: one_file_started_eval system_eval queue_eval)

lemma try_start_keeps:
  "stats (try_start u) = stats u \<and> isPaused (try_start u) = isPaused u
   \<and> timers (try_start u) = timers u \<and> concurrency (try_start u) = concurrency u
   \<and> set (running u) \<subseteq> set (running (try_start u))
   \<and> set (activeUploads u) \<subseteq> set (activeUploads (try_start u))
   \<and> filter is_job_error (emitted (try_start u)) = filter is_job_error (emitted u)"
  by (auto simp: try_start_def tryToStartAnother_def start_job_def emit_def
      split: list.splits option.splits)

text \<open>
  Claim C6, amended. A job that exceeds the timeout is given up by the queue without
  being marked failed: the counters are unchanged, no \<^term>\<open>JobError\<close> is emitted, the
  paused flag and the timers are unchanged, every other job keeps its slot, no job
  function is interrupted, and the freed slot goes to the head of the waiting queue.
\<close>

theorem timeout_is_not_a_failure:
  "stats (job_times_out jobId u) = stats u
   \<and> filter is_job_error (emitted (job_times_out jobId u)) = filter is_job_error (emitted u)
   \<and> isPaused (job_times_out jobId u) = isPaused u
   \<and> timers (job_times_out jobId u) = timers u
   \<and> (\<forall>i. i \<noteq> jobId \<and> holds_slot i u \<longrightarrow> holds_slot i (job_times_out jobId u))
   \<and> (\<forall>j. j \<in> set (activeUploads u) \<longrightarrow> j \<in> set (activeUploads (job_times_out jobId u)))
   \<and> (holds_slot jobId u \<and> \<not> isPaused u \<and> length (running u) \<le> concurrency u \<and> waiting u \<noteq> []
        \<longrightarrow> waiting (job_times_out jobId u) = tl (waiting u)
          \<and> holds_slot (job_id (hd (waiting u))) (job_times_out jobId u))"
proof (cases "jobId \<in> set (running u)")
  case False
  then show ?thesis by (simp add: job_times_out_def release_slot_def holds_slot_def)
next
  case True
  let ?v = "u\<lparr> running := filter (\<lambda>i. i \<noteq> jobId) (running u) \<rparr>"
  have t: "job_times_out jobId u = try_start ?v" using True by (simp add: job_times_out_def release_slot_def)
  have k: "stats (try_start ?v) = stats u" "isPaused (try_start ?v) = isPaused u"
    "timers (try_start ?v) = timers u"
    "set (running ?v) \<subseteq> set (running (try_start ?v))"
    "set (activeUploads u) \<subseteq> set (activeUploads (try_start ?v))"
    "filter is_job_error (emitted (try_start ?v)) = filter is_job_error (emitted u)"
    using try_start_keeps [of ?v] by simp_all
  have others: "holds_slot i (job_times_out jobId u)" if "i \<noteq> jobId \<and> holds_slot i u" for i
    using that k(4) by (auto simp: t holds_slot_def)
  have "length (filter (\<lambda>i. i \<noteq> jobId) (running u)) < length (running u)"
    using True by (simp add: length_filter_less)
  then have next_job: "waiting (job_times_out jobId u) = tl (waiting u)
          \<and> holds_slot (job_id (hd (waiting u))) (job_times_out jobId u)"
    if "\<not> isPaused u" "length (running u) \<le> concurrency u" "waiting u \<noteq> []"
    using that by (cases "waiting u")
      (auto simp: t try_start_def tryToStartAnother_def start_job_def emit_def holds_slot_def)
  show ?thesis using k others next_job by (auto simp: t)
qed

theorem timeout_is_not_a_failure_witness:
  "holds_slot 0 saturated \<and> \<not> isPaused saturated
   \<and> length (running saturated) \<le> concurrency saturated \<and> waiting saturated \<noteq> []
   \<and> stats (job_times_out 0 saturated) = stats saturated
   \<and> failedJobs (stats (job_times_out 0 saturated)) = 0
   \<and> filter is_job_error (emitted (job_times_out 0 saturated)) = []
   \<and> waiting (job_times_out 0 saturated) = []
   \<and> holds_slot 1 (job_times_out 0 saturated)"
proof -
  have s: "saturated =
     \<lparr> concurrency = 1, isPaused = False,
       waiting = [\<lparr> job_id = 1, job_sessionId = ''s1'', job_filePath = ''b.txt'', job_priority = 0 \<rparr>],
       running = [0],
       activeUploads =
         [\<lparr> job_id = 0, job_sessionId = ''s1'', job_filePath = ''a.txt'', job_priority = 0 \<rparr>],
       stats = \<lparr> totalJobs = 2, completedJobs = 0, failedJobs = 0, rateLimitHits = 0 \<rparr>,
       timers = [],
       emitted = [JobStart 0 ''s1'' ''a.txt''] \<rparr>"
    by (simp add: saturated_def queue_eval)
  have h: "holds_slot 0 saturated" "\<not> isPaused saturated"
    "length (running saturated) \<le> concurrency saturated" "waiting saturated \<noteq> []"
    "failedJobs (stats saturated) = 0" "filter is_job_error (emitted saturated) = []"
    "tl (waiting saturated) = []" "job_id (hd (waiting saturated)) = 1"
    by (simp_all add: s holds_slot_def)
  show ?thesis using timeout_is_not_a_failure [of 0 saturated] h by simp
qed

section \<open>Priorities\<close>

lemma pq_enqueue_Nil: "pq_enqueue j [] = [j]"
  by (simp add: pq_enqueue_def)

lemma pq_enqueue_Cons:
  "pq_enqueue j (a # q) =
     (if job_priority a \<ge> job_priority j then a # pq_enqueue j q else j # a # q)"
  by (simp add: pq_enqueue_def)

lemma set_pq_enqueue: "set (pq_enqueue j q) = insert j (set q)"
  by (induction q) (auto simp: pq_enqueue_Nil pq_enqueue_Cons)

lemma pq_enqueue_sorted:
  assumes "sorted_wrt (\<lambda>a b. job_priority a \<ge> job_priority b) q"
  shows "sorted_wrt (\<lambda>a b. job_priority a \<ge> job_priority b) (pq_enqueue j q)"
  using assms
proof (induction q)
  case Nil
  then show ?case by (simp add: pq_enqueue_Nil)
next
  case (Cons a q)
  show ?case
  proof (cases "job_priority a \<ge> job_priority j")
    case True
    with Cons show ?thesis by (auto simp: pq_enqueue_Cons set_pq_enqueue)
  next
    case False
    then have "job_priority j \<ge> job_priority a" by simp
    moreover have "\<forall>y\<in>set q. job_priority a \<ge> job_priority y" using Cons.prems by simp
    ultimately have "\<forall>y\<in>set q. job_priority j \<ge> job_priority y" using order_trans by blast
    with Cons.prems False show ?thesis by (simp add: pq_enqueue_Cons)
  qed
qed

lemma pq_enqueue_filter:
  assumes "sorted_wrt (\<lambda>a b. job_priority a \<ge> job_priority b) q"
  shows "filter (\<lambda>e. job_priority e = p) (pq_enqueue j q) =
           filter (\<lambda>e. job_priority e = p) q @ filter (\<lambda>e. job_priority e = p) [j]"
  using assms
proof (induction q)
  case Nil
  then show ?case by (simp add: pq_enqueue_Nil)
next
  case (Cons a q)
  show ?case
  proof (cases "job_priority a \<ge> job_priority j")
    case True
    with Cons show ?thesis by (simp add: pq_enqueue_Cons)
  next
    case False
    have "\<forall>y\<in>set (a # q). job_priority y < job_priority j"
      using Cons.prems False by auto
    then have "job_priority j = p \<Longrightarrow> filter (\<lambda>e. job_priority e = p) (a # q) = []"
      by (auto simp: filter_empty_conv)
    with False show ?thesis by (auto simp: pq_enqueue_Cons)
  qed
qed

lemma addUploadJob_blocked:
  assumes "isPaused u \<or> concurrency u \<le> length (running u)"
  shows "addUploadJob (job_filePath j) (Some (job_priority j)) (job_sessionId j) (job_id j) u =
           u\<lparr> stats := (stats u)\<lparr> totalJobs := totalJobs (stats u) + 1 \<rparr>,
               waiting := pq_enqueue j (waiting u) \<rparr>"
proof -
  have j: "\<lparr> job_id = job_id j, job_sessionId = job_sessionId j, job_filePath = job_filePath j,
             job_priority = job_priority j \<rparr> = j" by simp
  show ?thesis
    using assms
    by (auto simp: addUploadJob_def j try_start_def tryToStartAnother_def Let_def split: list.splits)
qed

lemma submit_all_blocked:
  assumes "isPaused u \<or> concurrency u \<le> length (running u)"
      and "sorted_wrt (\<lambda>a b. job_priority a \<ge> job_priority b) (waiting u)"
  shows "sorted_wrt (\<lambda>a b. job_priority a \<ge> job_priority b) (waiting (submit_all js u))
       \<and> (\<forall>p. filter (\<lambda>e. job_priority e = p) (waiting (submit_all js u)) =
                 filter (\<lambda>e. job_priority e = p) (waiting u) @ filter (\<lambda>e. job_priority e = p) js)
       \<and> emitted (submit_all js u) = emitted u
       \<and> running (submit_all js u) = running u"
  using assms
proof (induction js arbitrary: u)
  case Nil
  then show ?case by (simp add: submit_all_def)
next
  case (Cons j js)
  let ?u1 = "addUploadJob (job_filePath j) (Some (job_priority j)) (job_sessionId j) (job_id j) u"
  have u1: "?u1 = u\<lparr> stats := (stats u)\<lparr> totalJobs := totalJobs (stats u) + 1 \<rparr>,
                      waiting := pq_enqueue j (waiting u) \<rparr>"
    using addUploadJob_blocked [OF Cons.prems(1)] .
  have b: "isPaused ?u1 \<or> concurrency ?u1 \<le> length (running ?u1)"
    using Cons.prems(1) by (simp add: u1)
  have s: "sorted_wrt (\<lambda>a b. job_priority a \<ge> job_priority b) (waiting ?u1)"
    using pq_enqueue_sorted [OF Cons.prems(2)] by (simp add: u1)
  have step: "submit_all (j # js) u = submit_all js ?u1" by (simp add: submit_all_def)
  have f: "filter (\<lambda>e. job_priority e = p) (waiting ?u1) =
             filter (\<lambda>e. job_priority e = p) (waiting u) @ filter (\<lambda>e. job_priority e = p) [j]" for p
    using pq_enqueue_filter [OF Cons.prems(2)] by (simp add: u1)
  have e: "emitted ?u1 = emitted u" "running ?u1 = running u" by (simp_all add: u1)
  show ?case
    using Cons.IH [OF b s] f e unfolding step by simp
qed

lemma tryToStartAnother_head:
  "tryToStartAnother v = Some v' \<Longrightarrow>
     \<exists>j. waiting v = j # waiting v'
        \<and> emitted v' = emitted v @ [JobStart (job_id j) (job_sessionId j) (job_filePath j)]"
  by (auto simp: tryToStartAnother_def start_job_def emit_def split: list.splits if_splits)

lemma contending_eval:
  "contending =
     \<lparr> concurrency = 1, isPaused = False,
       waiting =
         [\<lparr> job_id = 0, job_sessionId = ''s1'', job_filePath = ''p2.txt'', job_priority = 2 \<rparr>,
          \<lparr> job_id = 2, job_sessionId = ''s1'', job_filePath = ''p1.txt'', job_priority = 1 \<rparr>,
          \<lparr> job_id = 1, job_sessionId = ''s1'', job_filePath = ''p0.txt'', job_priority = 0 \<rparr>],
       running = [9],
       activeUploads =
         [\<lparr> job_id = 9, job_sessionId = ''s0'', job_filePath = ''x.txt'', job_priority = 0 \<rparr>],
       stats = \<lparr> totalJobs = 4, completedJobs = 0, failedJobs = 0, rateLimitHits = 0 \<rparr>,
       timers = [],
       emitted = [JobStart 9 ''s0'' ''x.txt''] \<rparr>"
  by (simp add: contending_def submit_all_def queue_eval)

text \<open>
  Claim C2 fails as stated. One slot, taken; jobs of priorities 2, 0 and 1 are submitted
  in this order and contend for the slot. They wait in the order 2, 1, 0, and as the
  slot is freed again and again they start in that order: the greatest priority value
  first, not the lowest.
\<close>

theorem priorities_2_0_1_start_as_2_1_0:
  "map job_priority (waiting contending) = [2, 1, 0]
   \<and> emitted (job_succeeds 2 ok_headers 3 (job_succeeds 0 ok_headers 2 (job_succeeds 9 ok_headers 1 contending)))
      = [JobStart 9 ''s0'' ''x.txt'',
         JobComplete 9 ''s0'' ''x.txt'', JobStart 0 ''s1'' ''p2.txt'',
         JobComplete 0 ''s1'' ''p2.txt'', JobStart 2 ''s1'' ''p1.txt'',
         JobComplete 2 ''s1'' ''p1.txt'', JobStart 1 ''s1'' ''p0.txt'']"
  by (simp add: contending_eval ok_headers_def queue_eval)

text \<open>
  Claim C2, amended. While no slot is free (the queue is paused or all slots are
  taken), submitted jobs start nothing and the waiting queue stays in descending order
  of priority; the jobs of any one priority wait in the order of their submission; and
  whenever a job is started it is the head of the waiting queue. So a job with a
  greater priority value starts earlier, and jobs of equal priority start first in,
  first out.
\<close>

theorem greater_priority_starts_first:
  assumes "isPaused u \<or> concurrency u \<le> length (running u)"
      and "sorted_wrt (\<lambda>a b. job_priority a \<ge> job_priority b) (waiting u)"
  shows "sorted_wrt (\<lambda>a b. job_priority a \<ge> job_priority b) (waiting (submit_all js u))
       \<and> (\<forall>p. filter (\<lambda>e. job_priority e = p) (waiting (submit_all js u)) =
                 filter (\<lambda>e. job_priority e = p) (waiting u) @ filter (\<lambda>e. job_priority e = p) js)
       \<and> emitted (submit_all js u) = emitted u
       \<and> (\<forall>v v'. tryToStartAnother v = Some v' \<longrightarrow>
             (\<exists>j. waiting v = j # waiting v'
                 \<and> emitted v' = emitted v @ [JobStart (job_id j) (job_sessionId j) (job_filePath j)]))"
  using submit_all_blocked [OF assms, of js] tryToStartAnother_head by blast

theorem greater_priority_starts_first_witness:
  "concurrency (addUploadJob ''x.txt'' None ''s0'' 9 (new_UploadQueue (Some 1)))
      \<le> length (running (addUploadJob ''x.txt'' None ''s0'' 9 (new_UploadQueue (Some 1))))
   \<and> waiting (addUploadJob ''x.txt'' None ''s0'' 9 (new_UploadQueue (Some 1))) = []
   \<and> sorted_wrt (\<lambda>a b. job_priority a \<ge> job_priority b) (waiting contending)
   \<and> filter (\<lambda>e. job_priority e = 1) (waiting contending)
        = [\<lparr> job_id = 2, job_sessionId = ''s1'', job_filePath = ''p1.txt'', job_priority = 1 \<rparr>]
   \<and> emitted contending = [JobStart 9 ''s0'' ''x.txt'']
   \<and> tryToStartAnother (contending\<lparr> running := [] \<rparr>) \<noteq> None
   \<and> waiting (the (tryToStartAnother (contending\<lparr> running := [] \<rparr>))) = tl (waiting contending)"
proof -
  let ?u = "addUploadJob ''x.txt'' None ''s0'' 9 (new_UploadQueue (Some 1))"
  have u: "concurrency ?u \<le> length (running ?u)" "waiting ?u = []"
    "emitted ?u = [JobStart 9 ''s0'' ''x.txt'']"
    by (simp_all add: queue_eval)
  have b: "isPaused ?u \<or> concurrency ?u \<le> length (running ?u)" using u(1) by simp
  have s: "sorted_wrt (\<lambda>a b. job_priority a \<ge> job_priority b) (waiting ?u)" using u(2) by simp
  have t: "tryToStartAnother (contending\<lparr> running := [] \<rparr>) \<noteq> None"
    by (simp add: contending_eval tryToStartAnother_def)
  note th = greater_priority_starts_first [OF b s,
      of "[\<lparr> job_id = 0, job_sessionId = ''s1'', job_filePath = ''p2.txt'', job_priority = 2 \<rparr>,
        \<lparr> job_id = 1, job_sessionId = ''s1'', job_filePath = ''p0.txt'', job_priority = 0 \<rparr>,
        \<lparr> job_id = 2, job_sessionId = ''s1'', job_filePath = ''p1.txt'', job_priority = 1 \<rparr>]"]
  have c: "sorted_wrt (\<lambda>a b. job_priority a \<ge> job_priority b) (waiting contending)"
    "filter (\<lambda>e. job_priority e = 1) (waiting contending)
        = [\<lparr> job_id = 2, job_sessionId = ''s1'', job_filePath = ''p1.txt'', job_priority = 1 \<rparr>]"
    "emitted contending = [JobStart 9 ''s0'' ''x.txt'']"
    using th u by (simp_all add: contending_def)
  obtain v' where v': "tryToStartAnother (contending\<lparr> running := [] \<rparr>) = Some v'" using t by auto
  then obtain j where "waiting (contending\<lparr> running := [] \<rparr>) = j # waiting v'" using th by blast
  then have "waiting v' = tl (waiting contending)" by simp
  then show ?thesis using u c t v' by simp
qed

section \<open>Batches\<close>

subsection \<open>Sessions under the steps\<close>

lemma mark_completed_other:
  assumes "\<And>s x. g (s\<lparr> s_status := x \<rparr>) = g s"
  shows "map_option g (mark_completed m sid sid') = map_option g (m sid')"
  using assms by (auto simp: mark_completed_def split: option.splits)

lemma foldl_mark_completed:
  assumes "\<And>s x. g (s\<lparr> s_status := x \<rparr>) = g s"
  shows "map_option g (foldl mark_completed m sids sid') = map_option g (m sid')"
proof (induction sids arbitrary: m)
  case Nil
  then show ?case by simp
next
  case (Cons a sids)
  then show ?case using mark_completed_other [of g m a sid', OF assms] by simp
qed

lemma settle_promise_sessions:
  assumes "\<And>s x. g (s\<lparr> s_status := x \<rparr>) = g s"
  shows "map_option g (sessions (settle_promise jobId sys) sid) = map_option g (sessions sys sid)"
    and "uploadQueue (settle_promise jobId sys) = uploadQueue sys"
    and "clients (settle_promise jobId sys) = clients sys"
  using foldl_mark_completed [of g, OF assms]
  by (simp_all add: settle_promise_def fire_watchers_def)

lemma outcome_sessions:
  assumes "\<And>s x. g (s\<lparr> s_status := x \<rparr>) = g s" and "is_outcome a"
  shows "map_option g (sessions (step a sys) sid) = map_option g (sessions sys sid)"
proof (cases a)
  case (JobSucceeds jobId headers now)
  then show ?thesis using settle_promise_sessions(1) [of g, OF assms(1)] by (simp add: Let_def)
next
  case (JobFails jobId err now)
  then show ?thesis using settle_promise_sessions(1) [of g, OF assms(1)] by (simp add: Let_def)
next
  case (JobTimesOut jobId)
  then show ?thesis using settle_promise_sessions(1) [of g, OF assms(1)] by (simp add: Let_def)
qed (use assms(2) in simp_all)

lemma post_cancel_effect:
  "uploadQueue (snd (post_cancel installation sessionId sys)) = uploadQueue sys
   \<and> watchers (snd (post_cancel installation sessionId sys)) = watchers sys
   \<and> clients (snd (post_cancel installation sessionId sys)) = clients sys
   \<and> (fst (post_cancel installation sessionId sys) = Ok \<longrightarrow>
        map_option s_status (sessions (snd (post_cancel installation sessionId sys)) sessionId) = Some Cancelled)"
  by (auto simp: post_cancel_def requireInstallation_def split: sum.splits option.splits if_splits)

lemma post_cancel_sessions:
  assumes "\<And>s x. g (s\<lparr> s_status := x \<rparr>) = g s"
  shows "map_option g (sessions (snd (post_cancel installation sessionId sys)) sid) = map_option g (sessions sys sid)"
  using assms by (auto simp: post_cancel_def split: sum.splits option.splits)

lemma fire_watchers_sessions:
  assumes "\<And>s x. g (s\<lparr> s_status := x \<rparr>) = g s"
  shows "map_option g (sessions (fire_watchers sys) sid) = map_option g (sessions sys sid)"
  using foldl_mark_completed [of g, OF assms] by (simp add: fire_watchers_def)

lemma post_execute_sessions:
  assumes "\<And>s x. g (s\<lparr> s_status := x \<rparr>) = g s"
  shows "map_option g (sessions (snd (post_execute installation sessionId sys)) sid)
           = map_option g (sessions sys sid)"
proof (cases "\<exists>i session. requireInstallation installation = Inr i
          \<and> sessions sys sessionId = Some session \<and> s_installationId session = i")
  case False
  then show ?thesis by (auto simp: post_execute_def split: sum.splits option.splits)
next
  case True
  then obtain i session where h: "requireInstallation installation = Inr i"
    "sessions sys sessionId = Some session" "s_installationId session = i" by blast
  then show ?thesis
    using fire_watchers_sessions [of g, OF assms] assms
    by (simp add: post_execute_def Let_def)
qed

lemma post_start_sessions:
  assumes "sessions (snd (post_start req token extracted sessionId sys)) sid = Some s"
  shows "sessions sys sid = Some s \<or> counters_untouched s"
proof (cases "sessions (snd (post_start req token extracted sessionId sys)) sid = sessions sys sid")
  case True
  with assms show ?thesis by simp
next
  case False
  then have "counters_untouched s"
    using assms
    by (auto simp: post_start_def Let_def counters_untouched_def
        split: sum.splits option.splits if_splits)
  then show ?thesis by simp
qed

lemma counters_untouched_status:
  "counters_untouched (s\<lparr> s_status := x \<rparr>) = counters_untouched s"
  by (simp add: counters_untouched_def)

lemma map_option_transfer:
  assumes "map_option g (m' sid) = map_option g (m sid)" and "m' sid = Some s'"
  shows "\<exists>s. m sid = Some s \<and> g s = g s'"
  using assms by (cases "m sid") auto

lemma step_keeps_counters:
  assumes inv: "\<forall>sid s. sessions sys sid = Some s \<longrightarrow> counters_untouched s"
      and now: "sessions (step a sys) sid = Some s'"
  shows "counters_untouched s'"
proof -
  have g: "\<And>s x. counters_untouched (s\<lparr> s_status := x \<rparr>) = counters_untouched s"
    by (rule counters_untouched_status)
  have via: "counters_untouched s'"
    if "map_option counters_untouched (sessions (step a sys) sid)
          = map_option counters_untouched (sessions sys sid)"
    using map_option_transfer [of counters_untouched "sessions (step a sys)" sid "sessions sys" s', OF that now] inv
    by auto
  show ?thesis
  proof (cases a)
    case (Start req token extracted sessionId)
    then show ?thesis using post_start_sessions [of req token extracted sessionId sys sid s'] now inv
      by auto
  next
    case (Execute installation sessionId)
    then show ?thesis using via post_execute_sessions [of counters_untouched, OF g] by simp
  next
    case (Cancel installation sessionId)
    then show ?thesis using via post_cancel_sessions [of counters_untouched, OF g] by simp
  next
    case (JobSucceeds jobId headers t)
    then show ?thesis using via outcome_sessions [of counters_untouched a, OF g] by simp
  next
    case (JobFails jobId err t)
    then show ?thesis using via outcome_sessions [of counters_untouched a, OF g] by simp
  next
    case (JobTimesOut jobId)
    then show ?thesis using via outcome_sessions [of counters_untouched a, OF g] by simp
  next
    case (TimerFires i)
    then show ?thesis using now inv by simp
  next
    case (Subscribe sessionId)
    then show ?thesis using now inv by (simp add: setupSSE_def)
  next
    case (Disconnect i)
    then show ?thesis using now inv by (simp add: disconnect_def)
  qed
qed

lemma run_keeps_counters:
  assumes "\<forall>sid s. sessions sys sid = Some s \<longrightarrow> counters_untouched s"
  shows "\<forall>sid s. sessions (run acts sys) sid = Some s \<longrightarrow> counters_untouched s"
  using assms
proof (induction acts arbitrary: sys)
  case Nil
  then show ?case by (simp add: run_def)
next
  case (Cons a acts)
  have "\<forall>sid s. sessions (step a sys) sid = Some s \<longrightarrow> counters_untouched s"
    using step_keeps_counters [OF Cons.prems] by blast
  from Cons.IH [OF this] show ?case by (simp add: run_def)
qed

lemma batch_counters_never_advance:
  "sessions (run acts (init env)) sid = Some s \<Longrightarrow>
     st_completed (s_stats s) + st_failed (s_stats s) = 0
     \<and> st_completed (s_stats s) + st_failed (s_stats s) < st_total (s_stats s)"
proof -
  assume "sessions (run acts (init env)) sid = Some s"
  moreover have "\<forall>sid s. sessions (init env) sid = Some s \<longrightarrow> counters_untouched s"
    by (simp add: init_def)
  ultimately have "counters_untouched s" using run_keeps_counters by blast
  then show ?thesis unfolding counters_untouched_def by linarith
qed

subsection \<open>Clients\<close>

lemma step_clients:
  assumes "\<forall>c\<in>set (clients sys). emitted (c_queue c) = []"
  shows "\<forall>c\<in>set (clients (step a sys)). emitted (c_queue c) = []"
proof (cases a)
  case (Start req token extracted sessionId)
  then show ?thesis using assms
    by (auto simp: post_start_def Let_def split: sum.splits option.splits if_splits)
next
  case (Execute installation sessionId)
  then show ?thesis using assms
    by (auto simp: post_execute_def fire_watchers_def Let_def split: sum.splits option.splits if_splits)
next
  case (Cancel installation sessionId)
  then show ?thesis using assms post_cancel_effect [of installation sessionId sys] by simp
next
  case (JobSucceeds jobId headers t)
  then show ?thesis using assms by (simp add: Let_def settle_promise_sessions(3))
next
  case (JobFails jobId err t)
  then show ?thesis using assms by (simp add: Let_def settle_promise_sessions(3))
next
  case (JobTimesOut jobId)
  then show ?thesis using assms by (simp add: Let_def settle_promise_sessions(3))
next
  case (TimerFires i)
  then show ?thesis using assms by simp
next
  case (Subscribe sessionId)
  then show ?thesis using assms by (auto simp: setupSSE_def new_UploadQueue_def)
next
  case (Disconnect i)
  then show ?thesis using assms
    by (auto simp: disconnect_def dest: in_set_takeD in_set_dropD)
qed

lemma clients_hear_nothing:
  "c \<in> set (clients (run acts (init env))) \<Longrightarrow> written c = [Connected (c_sessionId c)]"
proof -
  have "\<forall>c\<in>set (clients (run acts sys)). emitted (c_queue c) = []"
    if "\<forall>c\<in>set (clients sys). emitted (c_queue c) = []" for sys
    using that
  proof (induction acts arbitrary: sys)
    case Nil
    then show ?case by (simp add: run_def)
  next
    case (Cons a acts)
    from Cons.IH [OF step_clients [OF Cons.prems]] show ?case by (simp add: run_def)
  qed
  moreover have "\<forall>c\<in>set (clients (init env)). emitted (c_queue c) = []" by (simp add: init_def)
  ultimately have "\<forall>c\<in>set (clients (run acts (init env))). emitted (c_queue c) = []" by blast
  moreover assume "c \<in> set (clients (run acts (init env)))"
  ultimately show ?thesis by (simp add: written_def)
qed

lemma valid_paths:
  "isValidPath ''a.txt''" "isValidPath ''b.txt''" "isValidPath ''c.txt''" "isValidPath ''d.txt''"
  "isValidPath ''e.txt''" "isValidPath ''f.txt''" "isValidPath ''g.txt''" "isValidPath ''big.txt''"
  by code_simp+


















subsection \<open>Batch creation\<close>

lemma validateFileList_throws:
  "(\<exists>msg. validateFileList fs maxFiles maxTotalSize = Inl msg)
     = (length fs > maxFiles \<or> totalSize fs > maxTotalSize)"
  by (simp add: validateFileList_def)

text \<open>
  Claim C5 fails as stated. A request with owner, repository and a ZIP file whose one
  valid file is larger than the default bound of \<^term>\<open>validateFileList\<close> creates a
  batch: \<^verbatim>\<open>/start\<close> never calls \<^term>\<open>validateFileList\<close>.
\<close>

theorem oversized_batch_is_created:
  "fst (post_start start_req (Inr ''token'') (Inr [big_file]) ''s1'' (init default_env))
     = StartOk ''s1'' 1 104857601
   \<and> map_option s_stats
        (sessions (snd (post_start start_req (Inr ''token'') (Inr [big_file]) ''s1'' (init default_env))) ''s1'')
     = Some \<lparr> st_total = 1, st_completed = 0, st_failed = 0 \<rparr>
   \<and> defaultMaxTotalSize < totalSize [big_file]
   \<and> validateFileList [big_file] defaultMaxFiles defaultMaxTotalSize = Inl ''Total size exceeds limit''"
  by (simp add: big_file_def system_eval valid_paths validateFileList_def defaultMaxFiles_def
      defaultMaxTotalSize_def)

lemma fileFilter_zip:
  assumes "fileFilter file"
  shows "endsWith (originalname file) ''.zip'' \<or> includes_str (mimetype file) ''zip''"
proof (cases "mimetype file = ''application/octet-stream'' \<and> endsWith (originalname file) ''.zip''")
  case True
  then show ?thesis by simp
next
  case False
  with assms have "mimetype file \<in> set allowedMimeTypes" by (simp add: fileFilter_def)
  then consider "mimetype file = ''application/zip''"
    | "mimetype file = ''application/x-zip-compressed''"
    | "mimetype file = ''multipart/x-zip''"
    by (auto simp: allowedMimeTypes_def)
  then have "includes_str (mimetype file) ''zip''"
    by cases (simp_all add: includes_str_def starts_cs_def)
  then show ?thesis by simp
qed

lemma upload_single_cases:
  "upload_single env file =
     (if \<exists>f. file = Some f \<and> (\<not> fileFilter f \<or> fileSize_limit env < upload_size f)
      then Inl (if \<not> fileFilter (the file) then ''Invalid file type. Only ZIP files are allowed.''
                else ''File too large'')
      else Inr file)"
  by (auto simp: upload_single_def split: option.splits)

text \<open>
  Claim C5, amended. With the app installed and the token provider and the extraction
  succeeding: an upload that the upload middleware refuses (not a ZIP file by its type,
  or larger than the upload limit) is answered 500 and nothing is stored. Otherwise
  \<^verbatim>\<open>/start\<close> answers 400 exactly when the owner or the repository name is missing,
  no file was uploaded, or no extracted file has a valid path, and then stores nothing;
  in every other case it stores a pending session of the valid files with the counters
  at zero and changes nothing else, so that no job exists yet. The answer 400 of the
  handler for an upload that is not a ZIP file is never given. \<^term>\<open>validateFileList\<close>
  throws exactly when the list is longer than \<^term>\<open>maxFiles\<close> or its total size is
  above \<^term>\<open>maxTotalSize\<close>.
\<close>

theorem start_rejects_bad_requests:
  assumes "requireInstallation (r_installationId req) = Inr installationId"
  shows
    "(let res = post_start req (Inr token) (Inr files) sessionId sys;
          validFiles = filter (\<lambda>file. isValidPath (f_path file)) files;
          refused = (\<exists>file. r_file req = Some file
                      \<and> (\<not> fileFilter file \<or> fileSize_limit (process_env sys) < upload_size file));
          bad = (falsy (r_owner req) \<or> falsy (r_repo req) \<or> r_file req = None \<or> validFiles = [])
      in (refused \<longrightarrow> (\<exists>msg. fst res = Status 500 msg) \<and> snd res = sys)
       \<and> (\<not> refused \<longrightarrow>
            ((\<exists>msg. fst res = Status 400 msg) = bad)
          \<and> (bad \<longrightarrow> snd res = sys)
          \<and> (\<not> bad \<longrightarrow>
               fst res = StartOk sessionId (length validFiles) (totalSize validFiles)
             \<and> snd res = sys\<lparr> sessions := (sessions sys)(sessionId \<mapsto>
                   \<lparr> s_files = validFiles,
                     s_owner = the (r_owner req),
                     s_repo = the (r_repo req),
                     s_branch = or_default (r_branch req) ''main'',
                     s_installationId = installationId,
                     s_status = Pending,
                     s_stats = \<lparr> st_total = length validFiles, st_completed = 0, st_failed = 0 \<rparr> \<rparr>) \<rparr>))
       \<and> fst res \<noteq> Status 400 ''Only ZIP files are accepted for folder uploads.'')
     \<and> ((\<exists>msg. validateFileList files maxFiles maxTotalSize = Inl msg)
          = (length files > maxFiles \<or> totalSize files > maxTotalSize))"
proof (cases "\<exists>file. r_file req = Some file
                      \<and> (\<not> fileFilter file \<or> fileSize_limit (process_env sys) < upload_size file)")
  case True
  then have "\<exists>m. upload_single (process_env sys) (r_file req) = Inl m"
    by (auto simp: upload_single_cases)
  then obtain m where "upload_single (process_env sys) (r_file req) = Inl m" by blast
  then have "post_start req (Inr token) (Inr files) sessionId sys = (error_handler (process_env sys) m, sys)"
    using assms by (simp add: post_start_def)
  then show ?thesis
    using True validateFileList_throws [of files maxFiles maxTotalSize]
    by (simp add: Let_def error_handler_def)
next
  case False
  then have u: "upload_single (process_env sys) (r_file req) = Inr (r_file req)"
    by (simp add: upload_single_cases)
  have z: "endsWith (originalname f) ''.zip'' \<or> includes_str (mimetype f) ''zip''"
    if "r_file req = Some f" for f
    using that False fileFilter_zip by blast
  show ?thesis
  proof (cases "r_file req")
    case None
    then show ?thesis
      using assms u False validateFileList_throws [of files maxFiles maxTotalSize]
      by (simp add: post_start_def Let_def)
  next
    case (Some f)
    then show ?thesis
      using assms u False z [OF Some] validateFileList_throws [of files maxFiles maxTotalSize]
      by (auto simp: post_start_def Let_def)
  qed
qed

theorem start_rejects_bad_requests_witness:
  "requireInstallation (r_installationId start_req) = Inr 7
   \<and> fst (post_start start_req (Inr ''token'') (Inr [text_file ''a.txt'', text_file ''../x.txt''])
           ''s1'' (init default_env)) = StartOk ''s1'' 1 1
   \<and> (\<exists>msg. fst (post_start (start_req\<lparr> r_owner := None \<rparr>) (Inr ''token'')
           (Inr [text_file ''a.txt'']) ''s1'' (init default_env)) = Status 400 msg)
   \<and> snd (post_start (start_req\<lparr> r_owner := None \<rparr>) (Inr ''token'')
           (Inr [text_file ''a.txt'']) ''s1'' (init default_env)) = init default_env
   \<and> \<not> fileFilter text_upload
   \<and> (\<exists>msg. fst (post_start (start_req\<lparr> r_file := Some text_upload \<rparr>) (Inr ''token'')
           (Inr [text_file ''a.txt'']) ''s1'' (init default_env)) = Status 500 msg)
   \<and> snd (post_start (start_req\<lparr> r_file := Some text_upload \<rparr>) (Inr ''token'')
           (Inr [text_file ''a.txt'']) ''s1'' (init default_env)) = init default_env"
proof -
  have i: "requireInstallation (r_installationId start_req) = Inr 7"
    "requireInstallation (r_installationId (start_req\<lparr> r_owner := None \<rparr>)) = Inr 7"
    "requireInstallation (r_installationId (start_req\<lparr> r_file := Some text_upload \<rparr>)) = Inr 7"
    by (simp_all add: start_req_def requireInstallation_def)
  have v: "filter (\<lambda>file. isValidPath (f_path file)) [text_file ''a.txt'', text_file ''../x.txt'']
             = [text_file ''a.txt'']"
    "filter (\<lambda>file. isValidPath (f_path file)) [text_file ''a.txt''] = [text_file ''a.txt'']"
    using traversal_invalid [of "[]" "''x.txt''"] by (simp_all add: text_file_def valid_paths)
  have f: "fileFilter zip_upload" "\<not> fileFilter text_upload"
    "\<not> fileSize_limit (process_env (init default_env)) < upload_size zip_upload"
    by (simp_all add: fileFilter_def allowedMimeTypes_def zip_upload_def text_upload_def
        fileSize_limit_def init_def default_env_def)
  have r: "\<not> falsy (r_owner start_req)" "\<not> falsy (r_repo start_req)"
    "r_file start_req = Some zip_upload"
    "falsy (r_owner (start_req\<lparr> r_owner := None \<rparr>))"
    "r_file (start_req\<lparr> r_owner := None \<rparr>) = Some zip_upload"
    "r_file (start_req\<lparr> r_file := Some text_upload \<rparr>) = Some text_upload"
    by (simp_all add: start_req_def)
  have t: "totalSize [text_file ''a.txt''] = 1" by (simp add: totalSize_def text_file_def)
  note good = start_rejects_bad_requests [OF i(1), of "''token''"
        "[text_file ''a.txt'', text_file ''../x.txt'']" "''s1''" "init default_env" 0 0]
  note no_owner = start_rejects_bad_requests [OF i(2), of "''token''" "[text_file ''a.txt'']"
        "''s1''" "init default_env" 0 0]
  note no_zip = start_rejects_bad_requests [OF i(3), of "''token''" "[text_file ''a.txt'']"
        "''s1''" "init default_env" 0 0]
  have 1: "fst (post_start start_req (Inr ''token'') (Inr [text_file ''a.txt'', text_file ''../x.txt''])
           ''s1'' (init default_env)) = StartOk ''s1'' 1 1"
    using good v f r t by (simp add: Let_def)
  have 2: "(\<exists>msg. fst (post_start (start_req\<lparr> r_owner := None \<rparr>) (Inr ''token'')
           (Inr [text_file ''a.txt'']) ''s1'' (init default_env)) = Status 400 msg)"
    "snd (post_start (start_req\<lparr> r_owner := None \<rparr>) (Inr ''token'')
           (Inr [text_file ''a.txt'']) ''s1'' (init default_env)) = init default_env"
    using no_owner v f r by (simp_all add: Let_def)
  have 3: "(\<exists>msg. fst (post_start (start_req\<lparr> r_file := Some text_upload \<rparr>) (Inr ''token'')
           (Inr [text_file ''a.txt'']) ''s1'' (init default_env)) = Status 500 msg)"
    "snd (post_start (start_req\<lparr> r_file := Some text_upload \<rparr>) (Inr ''token'')
           (Inr [text_file ''a.txt'']) ''s1'' (init default_env)) = init default_env"
    using no_zip f r by (simp_all add: Let_def)
  show ?thesis using i(1) 1 2 3 f(2) by blast
qed

subsection \<open>Subscribers\<close>

text \<open>
  Claim C9, at a concrete run. A client subscribes to batch \<^verbatim>\<open>s1\<close>; the batch is
  created and executed, and its job fails on an exhausted quota. The exported queue has
  emitted \<^term>\<open>JobStart\<close>, \<^term>\<open>RateLimitExceeded\<close> and \<^term>\<open>JobError\<close>; the
  client's stream holds the \<^term>\<open>Connected\<close> message and nothing else, although its
  handler forwards a \<^term>\<open>RateLimitExceeded\<close> event it is called with.
\<close>

theorem subscriber_misses_queue_events:
  "emitted (uploadQueue subscribed_hit) =
     [JobStart 0 ''s1'' ''a.txt'',
      RateLimitExceeded (Num 1700000000000) (Num 11000),
      JobError 0 ''s1'' ''a.txt'' (Some 403)]
   \<and> map c_sessionId (clients subscribed_hit) = [''s1'']
   \<and> map written (clients subscribed_hit) = [[Connected ''s1'']]
   \<and> eventHandlers ''s1'' (RateLimitExceeded (Num 1700000000000) (Num 11000))
       = [Forwarded (RateLimitExceeded (Num 1700000000000) (Num 11000))]"
  by (simp add: subscribed_hit_def system_eval queue_eval valid_paths quota_error_def written_def)

end
